theory Spec2Isabelle
  imports Complex_Main
begin

section \<open>Python values and the runtime\<close>

text \<open>
  The values that filters, keys and document bodies are made of. A dict is an association
  list, so that the iteration order of its keys is the order of the list. Floats are left
  out: every code path modelled here treats a float the way it treats a non-zero int as far
  as type tests go, and its text form is the platform's.
\<close>

datatype pyval =
    PNone
  | PBool bool
  | PInt int
  | PStr string
  | PList "pyval list"
  | PTuple "pyval list"
  | PDict "(string \<times> pyval) list"

text \<open>Exceptions, each with the message it is raised with.\<close>

datatype error =
    ValueError string
  | KeyError string
  | AssertionError string
  | AttributeError string
  | TypeError string
  | IndexError string
  | IntegrityError string
  | SqliteError string

definition sq :: string where
  "sq = [CHR 0x27]"

definition nl :: string where
  "nl = [CHR 0x0A]"

text \<open>\<^verbatim>\<open>str(e)\<close> of an exception: its message; a KeyError prints the repr of its key.\<close>

fun err_str :: "error \<Rightarrow> string" where
  "err_str (ValueError m) = m"
| "err_str (KeyError k) = sq @ k @ sq"
| "err_str (AssertionError m) = m"
| "err_str (AttributeError m) = m"
| "err_str (TypeError m) = m"
| "err_str (IndexError m) = m"
| "err_str (IntegrityError m) = m"
| "err_str (SqliteError m) = m"

text \<open>Truth value testing (\<^verbatim>\<open>not v\<close>, \<^verbatim>\<open>a or b\<close>).\<close>

fun py_truthy :: "pyval \<Rightarrow> bool" where
  "py_truthy PNone = False"
| "py_truthy (PBool b) = b"
| "py_truthy (PInt i) = (i \<noteq> 0)"
| "py_truthy (PStr s) = (s \<noteq> [])"
| "py_truthy (PList xs) = (xs \<noteq> [])"
| "py_truthy (PTuple xs) = (xs \<noteq> [])"
| "py_truthy (PDict kvs) = (kvs \<noteq> [])"

fun type_name :: "pyval \<Rightarrow> string" where
  "type_name PNone = ''NoneType''"
| "type_name (PBool b) = ''bool''"
| "type_name (PInt i) = ''int''"
| "type_name (PStr s) = ''str''"
| "type_name (PList xs) = ''list''"
| "type_name (PTuple xs) = ''tuple''"
| "type_name (PDict kvs) = ''dict''"

text \<open>\<^verbatim>\<open>sep.join(parts)\<close>.\<close>

fun join :: "string \<Rightarrow> string list \<Rightarrow> string" where
  "join sep [] = []"
| "join sep [x] = x"
| "join sep (x # y # ys) = x @ sep @ join sep (y # ys)"

text \<open>
  \<^verbatim>\<open>s.split("__")\<close>: the separator is looked for from the left, and matches do not
  overlap. The first argument is the part read so far.
\<close>

fun split_dunder_from :: "string \<Rightarrow> string \<Rightarrow> string list" where
  "split_dunder_from cur [] = [cur]"
| "split_dunder_from cur [a] = [cur @ [a]]"
| "split_dunder_from cur (a # b # rest) =
     (if a = CHR ''_'' \<and> b = CHR ''_'' then cur # split_dunder_from [] rest
      else split_dunder_from (cur @ [a]) (b # rest))"

definition split_dunder :: "string \<Rightarrow> string list" where
  "split_dunder s = split_dunder_from [] s"

text \<open>Decimal text of an int, as \<^verbatim>\<open>str\<close> gives it.\<close>

fun nat_str :: "nat \<Rightarrow> string" where
  "nat_str n =
     (if n < 10 then [''0123456789'' ! n]
      else nat_str (n div 10) @ [''0123456789'' ! (n mod 10)])"

declare nat_str.simps [simp del]

definition int_str :: "int \<Rightarrow> string" where
  "int_str i = (if i < 0 then ''-'' @ nat_str (nat (- i)) else nat_str (nat i))"

text \<open>
  \<^verbatim>\<open>str(v)\<close>, which is what \<^verbatim>\<open>"{}".format(v)\<close> inserts. The text of a container is
  Python's own \<^verbatim>\<open>repr\<close>, taken as the parameter \<open>repr\<close>.
\<close>

fun py_str :: "(pyval \<Rightarrow> string) \<Rightarrow> pyval \<Rightarrow> string" where
  "py_str repr PNone = ''None''"
| "py_str repr (PBool b) = (if b then ''True'' else ''False'')"
| "py_str repr (PInt i) = int_str i"
| "py_str repr (PStr s) = s"
| "py_str repr v = repr v"

text \<open>A format string with one \<^verbatim>\<open>{}\<close>: the text before it and the text after it.\<close>

type_synonym template = "string \<times> string"

fun format_one :: "template \<Rightarrow> string \<Rightarrow> string" where
  "format_one (pre, post) x = pre @ x @ post"

text \<open>\<^verbatim>\<open>for x in v\<close>.\<close>

fun py_iter :: "pyval \<Rightarrow> error + pyval list" where
  "py_iter (PList xs) = Inr xs"
| "py_iter (PTuple xs) = Inr xs"
| "py_iter (PStr s) = Inr (map (\<lambda>c. PStr [c]) s)"
| "py_iter (PDict kvs) = Inr (map (\<lambda>kv. PStr (fst kv)) kvs)"
| "py_iter v = Inl (TypeError (sq @ type_name v @ sq @ '' object is not iterable''))"

text \<open>What \<^verbatim>\<open>isinstance(v, (tuple, list))\<close> accepts, with the elements.\<close>

fun seq_items :: "pyval \<Rightarrow> pyval list option" where
  "seq_items (PList xs) = Some xs"
| "seq_items (PTuple xs) = Some xs"
| "seq_items v = None"

section \<open>queries.py: the Condition model\<close>

definition COLUMN_KEYS :: "string list" where
  "COLUMN_KEYS = [''_key'', ''_data'', ''_created'', ''_updated'', ''_embedding'']"

definition JSON_OPERATORS :: "(string \<times> template option) list" where
  "JSON_OPERATORS =
     [(''eq'', Some ([], '' = ?'')),
      (''ne'', Some ([], '' != ?'')),
      (''lt'', Some (''CAST('', '' as NUMERIC) < ?'')),
      (''gt'', Some (''CAST('', '' as NUMERIC) > ?'')),
      (''lte'', Some (''CAST('', '' as NUMERIC) <= ?'')),
      (''gte'', Some (''CAST('', '' as NUMERIC) >= ?'')),
      (''starts'', Some ([], '' LIKE ?'')),
      (''ends'', Some ([], '' LIKE ?'')),
      (''range'', Some (''CAST('', '' as NUMERIC) BETWEEN ? AND ?'')),
      (''contains'', Some ([], '' LIKE ?'')),
      (''!contains'', Some ([], '' NOT LIKE ?'')),
      (''in'', None),
      (''!in'', None)]"

definition COLUMN_OPERATORS :: "(string \<times> template option) list" where
  "COLUMN_OPERATORS =
     [(''eq'', Some ([], '' = ?'')),
      (''ne'', Some ([], '' != ?'')),
      (''lt'', Some ([], '' < ?'')),
      (''gt'', Some ([], '' > ?'')),
      (''lte'', Some ([], '' <= ?'')),
      (''gte'', Some ([], '' >= ?'')),
      (''starts'', Some ([], '' LIKE ?'')),
      (''ends'', Some ([], '' LIKE ?'')),
      (''range'', Some ([], '' BETWEEN ? AND ?'')),
      (''contains'', Some ([], '' LIKE ?'')),
      (''!contains'', Some ([], '' NOT LIKE ?'')),
      (''in'', None),
      (''!in'', None)]"

definition NULL_SQL :: "(string \<times> template) list" where
  "NULL_SQL = [(''eq'', ([], '' IS NULL'')), (''ne'', ([], '' IS NOT NULL''))]"

definition LIKE_FORMATTERS :: "(string \<times> template) list" where
  "LIKE_FORMATTERS =
     [(''starts'', ([], ''%'')),
      (''ends'', (''%'', [])),
      (''contains'', (''%'', ''%'')),
      (''!contains'', (''%'', ''%''))]"

text \<open>
  The dataclass. \<open>cvalue\<close> is the field \<^verbatim>\<open>value\<close>; \<open>field_expression\<close> is None until
  \<^verbatim>\<open>__post_init__\<close> has set it.
\<close>

record Condition =
  operator :: string
  field :: string
  cvalue :: pyval
  field_expression :: "string option"
  param :: "pyval list"
  column_name :: string

text \<open>\<^verbatim>\<open>field.startswith("_") and field in COLUMN_KEYS\<close>.\<close>

definition column_field :: "string \<Rightarrow> bool" where
  "column_field fld = (take 1 fld = ''_'' \<and> fld \<in> set COLUMN_KEYS)"

definition is_column_query :: "Condition \<Rightarrow> bool" where
  "is_column_query c = column_field (field c)"

definition is_json :: "Condition \<Rightarrow> bool" where
  "is_json c = (\<not> is_column_query c)"

definition operators :: "Condition \<Rightarrow> (string \<times> template option) list" where
  "operators c = (if is_json c then JSON_OPERATORS else COLUMN_OPERATORS)"

definition null_operator :: "Condition \<Rightarrow> (string \<times> template) list" where
  "null_operator c = NULL_SQL"

text \<open>What an f-string or \<^verbatim>\<open>format\<close> prints for \<^verbatim>\<open>self.field_expression\<close>.\<close>

definition fe :: "Condition \<Rightarrow> string" where
  "fe c = (case field_expression c of None \<Rightarrow> ''None'' | Some s \<Rightarrow> s)"

definition ins_sql :: "Condition \<Rightarrow> error + string" where
  "ins_sql c =
     (case cvalue c of
        PList xs \<Rightarrow>
          Inr (fe c @ '' '' @ (if operator c = ''in'' then ''IN'' else ''NOT IN'') @ '' ('' @
               join '','' (map (\<lambda>_. if is_json c then ''json(?)'' else ''?'') xs) @ '')'')
      | _ \<Rightarrow>
          Inl (ValueError (operator c @
               '' only supports lists. You might need to use `contains` and `!contains`'')))"

text \<open>
  \<^verbatim>\<open>self.null_operator[self.operator] and self.value is None\<close>, False on a KeyError. Both
  templates of the table are non-empty strings, hence true.
\<close>

definition is_valid_null_query :: "Condition \<Rightarrow> bool" where
  "is_valid_null_query c =
     (case map_of (null_operator c) (operator c) of
        None \<Rightarrow> False
      | Some t \<Rightarrow> cvalue c = PNone)"

definition null_sql :: "Condition \<Rightarrow> error + string" where
  "null_sql c =
     (if is_valid_null_query c then
        (case map_of (null_operator c) (operator c) of
           None \<Rightarrow> Inl (KeyError (operator c))
         | Some t \<Rightarrow> Inr (format_one t (fe c)))
      else Inl (ValueError ''Not valid null query.''))"

definition get_cond_sql :: "Condition \<Rightarrow> error + string" where
  "get_cond_sql c =
     (if cvalue c = PNone then null_sql c
      else
        (case map_of (operators c) (operator c) of
           None \<Rightarrow> Inl (KeyError (operator c))
         | Some None \<Rightarrow> ins_sql c
         | Some (Some t) \<Rightarrow> Inr (format_one t (fe c))))"

definition handle_range :: "Condition \<Rightarrow> error + Condition" where
  "handle_range c =
     (if \<not> py_truthy (cvalue c) then Inl (ValueError ''Range lookup values can't be empty'')
      else
        (case cvalue c of
           PList xs \<Rightarrow>
             (if length xs = 2 then Inr (c\<lparr>param := xs\<rparr>)
              else Inl (ValueError ''Range operator requires a tuple or list with exactly 2 values''))
         | PTuple xs \<Rightarrow>
             (if length xs = 2 then Inr (c\<lparr>param := xs\<rparr>)
              else Inl (ValueError ''Range operator requires a tuple or list with exactly 2 values''))
         | _ \<Rightarrow> Inl (ValueError ''Range operator requires a tuple or list with exactly 2 values'')))"

text \<open>
  The \<^verbatim>\<open>try\<close> looks the operator up in \<^verbatim>\<open>LIKE_FORMATTERS\<close>; the bare \<^verbatim>\<open>except\<close> takes
  every other operator, \<^verbatim>\<open>in\<close> and \<^verbatim>\<open>!in\<close> among them.
\<close>

definition process_param_value :: "(pyval \<Rightarrow> string) \<Rightarrow> Condition \<Rightarrow> error + Condition" where
  "process_param_value repr c =
     (if is_valid_null_query c then Inr (c\<lparr>param := []\<rparr>)
      else if operator c = ''range'' then handle_range c
      else
        (case map_of LIKE_FORMATTERS (operator c) of
           Some t \<Rightarrow> Inr (c\<lparr>param := [PStr (format_one t (py_str repr (cvalue c)))]\<rparr>)
         | None \<Rightarrow> Inr (c\<lparr>param := [cvalue c]\<rparr>)))"

definition dict_keys :: "(string \<times> 'a) list \<Rightarrow> string" where
  "dict_keys tbl = ''dict_keys(['' @ join '', '' (map (\<lambda>kv. sq @ fst kv @ sq) tbl) @ ''])''"

text \<open>
  The left-hand side that \<^verbatim>\<open>__post_init__\<close> stores in \<^verbatim>\<open>field_expression\<close>: the bare
  column name (\<^verbatim>\<open>self.field[1:]\<close>) for a column query, a \<^verbatim>\<open>json_extract\<close> otherwise.
\<close>

definition lhs_sql :: "string \<Rightarrow> string \<Rightarrow> string" where
  "lhs_sql fld col =
     (if column_field fld then drop 1 fld
      else ''json_extract('' @ col @ '', '' @ sq @
           (if fld = ''data'' then ''$'' else ''$.'' @ fld) @ sq @ '')'')"

definition post_init :: "(pyval \<Rightarrow> string) \<Rightarrow> Condition \<Rightarrow> error + Condition" where
  "post_init repr c =
     (case map_of (operators c) (operator c) of
        None \<Rightarrow>
          Inl (ValueError (operator c @ '' isn not a valid operator. Options: '' @
                           dict_keys (operators c)))
      | Some _ \<Rightarrow>
          process_param_value repr
            (c\<lparr>field_expression := Some (lhs_sql (field c) (column_name c))\<rparr>))"

text \<open>The constructor call \<^verbatim>\<open>Condition(operator=, field=, value=, column_name=)\<close>.\<close>

definition new_Condition ::
  "(pyval \<Rightarrow> string) \<Rightarrow> string \<Rightarrow> string \<Rightarrow> pyval \<Rightarrow> string \<Rightarrow> error + Condition" where
  "new_Condition repr op fld v col =
     post_init repr
       \<lparr>operator = op, field = fld, cvalue = v, field_expression = None, param = [],
        column_name = col\<rparr>"

section \<open>queries.py: the where-clause compiler\<close>

text \<open>
  The body of the loop of \<^verbatim>\<open>build_condition\<close> for one entry of the dict, in two steps:
  \<open>compile_condition\<close> constructs the Condition and reads \<^verbatim>\<open>get_cond_sql()\<close> and
  \<^verbatim>\<open>param\<close> from it; \<open>condition_clause\<close> splits the key at \<^verbatim>\<open>__\<close> first.
\<close>

definition compile_condition ::
  "(pyval \<Rightarrow> string) \<Rightarrow> string \<Rightarrow> string \<Rightarrow> pyval \<Rightarrow> string \<Rightarrow>
   error + (string \<times> pyval list)" where
  "compile_condition repr op fld v col =
     (case new_Condition repr op fld v col of
        Inl e \<Rightarrow> Inl e
      | Inr cond \<Rightarrow>
          (case get_cond_sql cond of
             Inl e \<Rightarrow> Inl e
           | Inr sql \<Rightarrow> Inr (sql, param cond)))"

definition condition_clause ::
  "(pyval \<Rightarrow> string) \<Rightarrow> string \<Rightarrow> string \<times> pyval \<Rightarrow> error + (string \<times> pyval list)" where
  "condition_clause repr col kv =
     (let field_parts = split_dunder (fst kv) in
      if length field_parts > 2 then Inl (ValueError ''More than one __ in query'')
      else
        compile_condition repr
          (if length field_parts > 1 then field_parts ! 1 else ''eq'')
          (if length field_parts > 1 then field_parts ! 0 else fst kv)
          (snd kv) col)"

fun build_condition_loop ::
  "(pyval \<Rightarrow> string) \<Rightarrow> string \<Rightarrow> (string \<times> pyval) list \<Rightarrow> string list \<Rightarrow> pyval list \<Rightarrow>
   error + (string list \<times> pyval list)" where
  "build_condition_loop repr col [] clauses params = Inr (clauses, params)"
| "build_condition_loop repr col (kv # rest) clauses params =
     (case condition_clause repr col kv of
        Inl e \<Rightarrow> Inl e
      | Inr (sql, ps) \<Rightarrow> build_condition_loop repr col rest (clauses @ [sql]) (params @ ps))"

definition build_condition ::
  "(pyval \<Rightarrow> string) \<Rightarrow> pyval \<Rightarrow> string \<Rightarrow> error + (string \<times> pyval list)" where
  "build_condition repr conditions col =
     (case conditions of
        PDict kvs \<Rightarrow>
          (case build_condition_loop repr col kvs [] [] of
             Inl e \<Rightarrow> Inl e
           | Inr (clauses, params) \<Rightarrow> Inr (join '' AND '' clauses, params))
      | _ \<Rightarrow>
          Inl (AttributeError (sq @ type_name conditions @ sq @ '' object has no attribute '' @
                               sq @ ''items'' @ sq)))"

fun build_where_loop ::
  "(pyval \<Rightarrow> string) \<Rightarrow> string \<Rightarrow> pyval list \<Rightarrow> string list \<Rightarrow> pyval list \<Rightarrow>
   error + (string list \<times> pyval list)" where
  "build_where_loop repr col [] clauses params = Inr (clauses, params)"
| "build_where_loop repr col (condition # rest) clauses params =
     (case build_condition repr condition col of
        Inl e \<Rightarrow> Inl e
      | Inr (and_sql, and_params) \<Rightarrow>
          build_where_loop repr col rest (clauses @ [and_sql]) (params @ and_params))"

definition build_where_clause ::
  "(pyval \<Rightarrow> string) \<Rightarrow> pyval \<Rightarrow> string \<Rightarrow> error + (string \<times> pyval list)" where
  "build_where_clause repr conditions col =
     (case conditions of
        PDict kvs \<Rightarrow> build_condition repr conditions col
      | _ \<Rightarrow>
          (case py_iter conditions of
             Inl e \<Rightarrow> Inl e
           | Inr groups \<Rightarrow>
               (case build_where_loop repr col groups [] [] of
                  Inl e \<Rightarrow> Inl e
                | Inr (clauses, params) \<Rightarrow> Inr (''('' @ join '' OR '' clauses @ '')'', params))))"

section \<open>The store and the runtime outside the repository\<close>

text \<open>
  A row of a primary table without its key: the JSON text, the embedding (NULL when None),
  and the two timestamps.
\<close>

record row =
  data :: string
  embedding :: "string option"
  created :: nat
  updated :: nat

text \<open>
  The database file. \<open>tables\<close> holds the primary table of each base, by name, with its rows
  by key; \<open>oak_conf\<close> is the configuration table, None when the table does not exist;
  \<open>virtual_tables\<close> are the names of the mirror tables that exist; \<open>triggers\<close> are the
  triggers that exist, each with the table it is attached to. The rows of the mirror tables
  are written by the engine's triggers, never by this code, and are not represented.
  Timestamps are seconds.
\<close>

record store =
  tables :: "string \<rightharpoonup> (string \<rightharpoonup> row)"
  oak_conf :: "(string \<rightharpoonup> string) option"
  virtual_tables :: "string set"
  triggers :: "(string \<times> string) set"

text \<open>
  What the code calls and the repository does not define: Python's \<^verbatim>\<open>repr\<close> of a
  container, \<^verbatim>\<open>int\<close> of a string, \<^verbatim>\<open>json.dumps\<close> and \<^verbatim>\<open>json.loads\<close>, the draws of
  \<^verbatim>\<open>random.choices\<close> (the n-th key drawn), the embedder followed by
  \<^verbatim>\<open>serialize_float32\<close>, whether the vector packages import (\<^verbatim>\<open>VECTOR_DEPS\<close>), and the SQL
  engine answering a SELECT statement with its bound parameters on a given store.
\<close>

record runtime =
  rt_repr :: "pyval \<Rightarrow> string"
  rt_int :: "string \<Rightarrow> error + int"
  rt_dumps :: "pyval \<Rightarrow> string"
  rt_loads :: "pyval \<Rightarrow> error + pyval"
  rt_random_key :: "nat \<Rightarrow> string"
  rt_embed :: "string \<Rightarrow> string"
  VECTOR_DEPS :: bool
  rt_select :: "store \<Rightarrow> string \<Rightarrow> pyval list \<Rightarrow> error + pyval list list"

section \<open>queries.py: build\_fetch\<close>

definition OrderFetch :: "string list" where
  "OrderFetch =
     [''key__asc'', ''key__desc'', ''data__asc'', ''data__desc'', ''created__asc'',
      ''created__desc'', ''updated__asc'', ''updated__desc'']"

text \<open>\<^verbatim>\<open>direction.upper()\<close>, for the two directions that pass the assertion.\<close>

definition upper_direction :: "string \<Rightarrow> string" where
  "upper_direction d = (if d = ''asc'' then ''ASC'' else if d = ''desc'' then ''DESC'' else d)"

definition indent :: "nat \<Rightarrow> string" where
  "indent n = replicate n (CHR '' '')"

definition build_fetch ::
  "(pyval \<Rightarrow> string) \<Rightarrow> string \<Rightarrow> pyval \<Rightarrow> int \<Rightarrow> int \<Rightarrow> string \<Rightarrow> bool \<Rightarrow>
   error + (string \<times> pyval list)" where
  "build_fetch repr base conditions limit offset order count =
     (case (if py_truthy conditions then build_where_clause repr conditions ''data''
            else Inr ([], [])) of
        Inl e \<Rightarrow> Inl e
      | Inr (where_sql, params) \<Rightarrow>
          (if count then
             Inr (nl @ indent 8 @ ''SELECT COUNT(*) FROM '' @ base @ nl @ indent 8 @
                  (if where_sql \<noteq> [] then ''WHERE '' @ where_sql else []) @ nl @ indent 8,
                  params)
           else if order \<notin> set OrderFetch then
             Inl (AssertionError (''Invalid order type: '' @ order))
           else
             (case split_dunder order of
                [fld, direction] \<Rightarrow>
                  Inr (nl @ indent 4 @ ''SELECT key, data, created, updated FROM '' @ base @
                       nl @ indent 4 @
                       (if where_sql \<noteq> [] then ''WHERE '' @ where_sql else []) @
                       nl @ indent 4 @ ''ORDER BY '' @ fld @ '' '' @ upper_direction direction @
                       nl @ indent 4 @ ''LIMIT ?'' @ nl @ indent 4 @ ''OFFSET ?'' @
                       nl @ indent 4,
                       params @ [PInt limit, PInt offset])
              | _ \<Rightarrow> Inl (ValueError ''not enough values to unpack''))))"

section \<open>backends.py: SQLiteBackend\<close>

text \<open>
  The backend object: the database it is connected to, its \<^verbatim>\<open>vec_enabled\<close> flag, and the
  number of keys drawn so far.
\<close>

record backend =
  db :: store
  vec_enabled :: bool
  drawn :: nat

definition genkey :: "runtime \<Rightarrow> backend \<Rightarrow> string \<times> backend" where
  "genkey rt b = (rt_random_key rt (drawn b), b\<lparr>drawn := Suc (drawn b)\<rparr>)"

text \<open>\<^verbatim>\<open>CREATE TABLE IF NOT EXISTS\<close> for the primary table and for \<^verbatim>\<open>oak_conf\<close>.\<close>

definition initialize :: "backend \<Rightarrow> string \<Rightarrow> backend" where
  "initialize b base =
     b\<lparr>db := (db b)
         \<lparr>tables := (case tables (db b) base of
                        None \<Rightarrow> (tables (db b))(base \<mapsto> Map.empty)
                      | Some t \<Rightarrow> tables (db b)),
          oak_conf := (case oak_conf (db b) of
                         None \<Rightarrow> Some Map.empty
                       | Some c \<Rightarrow> Some c)\<rparr>\<rparr>"

definition no_such_table :: "string \<Rightarrow> error" where
  "no_such_table t = SqliteError (''no such table: '' @ t)"

definition set_table :: "backend \<Rightarrow> string \<Rightarrow> (string \<rightharpoonup> row) \<Rightarrow> backend" where
  "set_table b base t = b\<lparr>db := (db b)\<lparr>tables := (tables (db b))(base \<mapsto> t)\<rparr>\<rparr>"

text \<open>\<^verbatim>\<open>UPDATE base SET embedding = ? WHERE key = ?\<close>, on the rows of one table.\<close>

definition update_embedding :: "(string \<rightharpoonup> row) \<Rightarrow> string \<Rightarrow> string \<Rightarrow> (string \<rightharpoonup> row)" where
  "update_embedding t key emb =
     (case t key of None \<Rightarrow> t | Some r \<Rightarrow> t(key \<mapsto> r\<lparr>embedding := Some emb\<rparr>))"

definition add_embedding :: "runtime \<Rightarrow> backend \<Rightarrow> string \<Rightarrow> string \<Rightarrow> string \<Rightarrow> error + backend" where
  "add_embedding rt b base key text =
     (case tables (db b) base of
        None \<Rightarrow> Inl (no_such_table base)
      | Some t \<Rightarrow> Inr (set_table b base (update_embedding t key (rt_embed rt text))))"

fun adds_embedding_rows ::
  "runtime \<Rightarrow> (string \<rightharpoonup> row) \<Rightarrow> (string \<times> string) list \<Rightarrow> (string \<rightharpoonup> row)" where
  "adds_embedding_rows rt t [] = t"
| "adds_embedding_rows rt t ((key, text) # rest) =
     adds_embedding_rows rt (update_embedding t key (rt_embed rt text)) rest"

definition adds_embedding ::
  "runtime \<Rightarrow> backend \<Rightarrow> string \<Rightarrow> (string \<times> string) list \<Rightarrow> error + backend" where
  "adds_embedding rt b base texts =
     (case tables (db b) base of
        None \<Rightarrow> Inl (no_such_table base)
      | Some t \<Rightarrow> Inr (set_table b base (adds_embedding_rows rt t texts)))"

text \<open>
  \<^verbatim>\<open>SQLiteBackend.add\<close> at the time \<open>now\<close> (\<^verbatim>\<open>CURRENT_TIMESTAMP\<close>). With \<^verbatim>\<open>override\<close> the
  statement is \<^verbatim>\<open>INSERT OR REPLACE\<close> whose \<^verbatim>\<open>created\<close> is the \<^verbatim>\<open>COALESCE\<close> of the stored
  \<^verbatim>\<open>created\<close> of that key and the current time; the row is replaced whole, so the column
  \<^verbatim>\<open>embedding\<close>, which the statement does not name, is NULL. Without \<^verbatim>\<open>override\<close> a key
  that exists violates the primary key.
\<close>

definition SQLiteBackend_add ::
  "runtime \<Rightarrow> backend \<Rightarrow> nat \<Rightarrow> string \<Rightarrow> string \<Rightarrow> string \<Rightarrow> bool \<Rightarrow> error + backend" where
  "SQLiteBackend_add rt b now base key dat override =
     (case tables (db b) base of
        None \<Rightarrow> Inl (no_such_table base)
      | Some t \<Rightarrow>
          (if \<not> override \<and> t key \<noteq> None then
             Inl (IntegrityError (''UNIQUE constraint failed: '' @ base @ ''.key''))
           else
             (let b' = set_table b base
                         (t(key \<mapsto>
                            \<lparr>data = dat, embedding = None,
                             created = (if override
                                        then (case t key of None \<Rightarrow> now | Some r \<Rightarrow> created r)
                                        else now),
                             updated = now\<rparr>))
              in if vec_enabled b then add_embedding rt b' base key dat else Inr b')))"

text \<open>
  How the engine binds the key of a batch item to the column \<^verbatim>\<open>key TEXT\<close>: a str as it
  is, an int (and a bool, which is an int) as its decimal text, None as NULL, and no
  container. A row whose key is NULL is matched by no \<^verbatim>\<open>WHERE key = ?\<close>; it is not among
  the rows by key that \<open>tables\<close> holds.
\<close>

fun bind_key :: "pyval \<Rightarrow> error + string option" where
  "bind_key PNone = Inr None"
| "bind_key (PStr s) = Inr (Some s)"
| "bind_key (PInt i) = Inr (Some (int_str i))"
| "bind_key (PBool b) = Inr (Some (if b then ''1'' else ''0''))"
| "bind_key v =
     Inl (SqliteError (''Error binding parameter 1: type '' @ sq @ type_name v @ sq @
                       '' is not supported''))"

text \<open>
  The rows of \<^verbatim>\<open>executemany\<close> in \<^verbatim>\<open>SQLiteBackend.adds\<close>: both statements write
  \<^verbatim>\<open>CURRENT_TIMESTAMP\<close> into \<^verbatim>\<open>created\<close> and into \<^verbatim>\<open>updated\<close>.
\<close>

fun adds_rows ::
  "string \<Rightarrow> bool \<Rightarrow> nat \<Rightarrow> (string \<rightharpoonup> row) \<Rightarrow> (pyval \<times> string) list \<Rightarrow>
   error + (string \<rightharpoonup> row)" where
  "adds_rows base override now t [] = Inr t"
| "adds_rows base override now t ((key, dat) # rest) =
     (case bind_key key of
        Inl e \<Rightarrow> Inl e
      | Inr None \<Rightarrow> adds_rows base override now t rest
      | Inr (Some k) \<Rightarrow>
          (if \<not> override \<and> t k \<noteq> None then
             Inl (IntegrityError (''UNIQUE constraint failed: '' @ base @ ''.key''))
           else
             adds_rows base override now
               (t(k \<mapsto> \<lparr>data = dat, embedding = None, created = now, updated = now\<rparr>)) rest))"

text \<open>The dict that \<^verbatim>\<open>adds\<close> returns; \<open>res_error\<close> is None when it has no \<^verbatim>\<open>error\<close> entry.\<close>

record adds_result =
  res_success :: bool
  res_error :: "string option"
  res_rows_affected :: int

text \<open>
  \<^verbatim>\<open>SQLiteBackend.adds\<close>: the transaction rolls back on an exception, so a failed batch
  leaves the store as it was. With \<^verbatim>\<open>vec_enabled\<close> the embeddings are written for the pairs
  \<^verbatim>\<open>(str(key), str(data))\<close>.
\<close>

definition SQLiteBackend_adds ::
  "runtime \<Rightarrow> backend \<Rightarrow> nat \<Rightarrow> string \<Rightarrow> (pyval \<times> string) list \<Rightarrow> bool \<Rightarrow>
   adds_result \<times> backend" where
  "SQLiteBackend_adds rt b now base its override =
     (case tables (db b) base of
        None \<Rightarrow>
          (\<lparr>res_success = False, res_error = Some (err_str (no_such_table base)),
            res_rows_affected = 0\<rparr>, b)
      | Some t \<Rightarrow>
          (case adds_rows base override now t its of
             Inl e \<Rightarrow>
               (\<lparr>res_success = False, res_error = Some (err_str e), res_rows_affected = 0\<rparr>, b)
           | Inr t' \<Rightarrow>
               (\<lparr>res_success = True, res_error = None, res_rows_affected = int (length its)\<rparr>,
                set_table b base
                  (if vec_enabled b
                   then adds_embedding_rows rt t'
                          (map (\<lambda>x. (py_str (rt_repr rt) (fst x), snd x)) its)
                   else t'))))"

definition SQLiteBackend_get :: "backend \<Rightarrow> string \<Rightarrow> string \<Rightarrow> error + (string \<times> row) option" where
  "SQLiteBackend_get b base key =
     (case tables (db b) base of
        None \<Rightarrow> Inl (no_such_table base)
      | Some t \<Rightarrow> Inr (case t key of None \<Rightarrow> None | Some r \<Rightarrow> Some (key, r)))"

text \<open>\<^verbatim>\<open>DELETE FROM base WHERE key = ?\<close>, then \<^verbatim>\<open>rowcount > 0\<close>.\<close>

definition SQLiteBackend_delete :: "backend \<Rightarrow> string \<Rightarrow> string \<Rightarrow> error + (bool \<times> backend)" where
  "SQLiteBackend_delete b base key =
     (case tables (db b) base of
        None \<Rightarrow> Inl (no_such_table base)
      | Some t \<Rightarrow>
          (let rows = (if t key = None then 0 else 1 :: int)
           in Inr (rows > 0, set_table b base (t(key := None)))))"

definition SQLiteBackend_fetch_query ::
  "runtime \<Rightarrow> backend \<Rightarrow> string \<Rightarrow> pyval \<Rightarrow> bool \<Rightarrow> int \<Rightarrow> int \<Rightarrow> string \<Rightarrow>
   error + pyval list list" where
  "SQLiteBackend_fetch_query rt b base filters count limit offset order =
     (case build_fetch (rt_repr rt) base filters limit offset order count of
        Inl e \<Rightarrow> Inl e
      | Inr (query, params) \<Rightarrow> rt_select rt (db b) query params)"

text \<open>
  The statements of the drop list. \<^verbatim>\<open>DROP TABLE IF EXISTS\<close> removes the table of that
  name and, as the engine does, every trigger attached to it; \<^verbatim>\<open>DROP TRIGGER IF EXISTS\<close>
  removes the trigger of that name.
\<close>

datatype statement = DropTable string | DropTrigger string

fun execute_drop :: "store \<Rightarrow> statement \<Rightarrow> store" where
  "execute_drop st (DropTable t) =
     st\<lparr>tables := (tables st)(t := None),
        oak_conf := (if t = ''oak_conf'' then None else oak_conf st),
        virtual_tables := virtual_tables st - {t},
        triggers := {tr \<in> triggers st. snd tr \<noteq> t}\<rparr>"
| "execute_drop st (DropTrigger n) = st\<lparr>triggers := {tr \<in> triggers st. fst tr \<noteq> n}\<rparr>"

definition drop_list :: "runtime \<Rightarrow> string \<Rightarrow> string \<Rightarrow> statement list" where
  "drop_list rt base kind =
     (if kind \<in> set [''all'', ''main''] then [DropTable base, DropTable ''oak_conf''] else []) @
     (if kind \<in> set [''all'', ''search'']
      then [DropTable (base @ ''_fts''), DropTrigger (base @ ''_ai''),
            DropTrigger (base @ ''_au''), DropTrigger (base @ ''_ad'')]
      else []) @
     (if kind \<in> set [''all'', ''vector''] \<and> VECTOR_DEPS rt
      then [DropTable (base @ ''_vec''), DropTrigger (base @ ''_emb'')]
      else [])"

definition drop_tables :: "runtime \<Rightarrow> backend \<Rightarrow> string \<Rightarrow> string \<Rightarrow> backend" where
  "drop_tables rt b base kind = b\<lparr>db := foldl execute_drop (db b) (drop_list rt base kind)\<rparr>"

text \<open>\<^verbatim>\<open>INSERT OR REPLACE INTO oak_conf\<close>.\<close>

definition set_config :: "backend \<Rightarrow> string \<Rightarrow> string \<Rightarrow> error + backend" where
  "set_config b key val =
     (case oak_conf (db b) of
        None \<Rightarrow> Inl (no_such_table ''oak_conf'')
      | Some c \<Rightarrow> Inr (b\<lparr>db := (db b)\<lparr>oak_conf := Some (c(key \<mapsto> val))\<rparr>\<rparr>))"

definition get_configs :: "backend \<Rightarrow> string \<Rightarrow> error + (string \<rightharpoonup> string)" where
  "get_configs b base =
     (case oak_conf (db b) of
        None \<Rightarrow> Inl (no_such_table ''oak_conf'')
      | Some c \<Rightarrow> Inr c)"

section \<open>base.py: the responses\<close>

record AddResponse =
  ar_key :: string
  ar_data :: pyval
  ar_kv :: "(string \<times> pyval) list"
  ar_error :: string

record AddsResponse =
  as_keys :: "pyval list"
  as_success :: bool
  as_error :: string

record DeleteResponse =
  dr_key :: string
  dr_deleted :: bool
  dr_error :: string

record ItemsResponse =
  ir_page :: int
  ir_pages :: int
  ir_total :: int
  ir_limit :: int
  ir_items :: "pyval list"
  ir_error :: string

text \<open>The responses with the defaults of their fields, and \<^verbatim>\<open>__bool__\<close>.\<close>

definition new_AddResponse :: AddResponse where
  "new_AddResponse = \<lparr>ar_key = [], ar_data = PNone, ar_kv = [], ar_error = []\<rparr>"

definition new_DeleteResponse :: DeleteResponse where
  "new_DeleteResponse = \<lparr>dr_key = [], dr_deleted = False, dr_error = []\<rparr>"

definition new_ItemsResponse :: ItemsResponse where
  "new_ItemsResponse =
     \<lparr>ir_page = 0, ir_pages = 0, ir_total = 0, ir_limit = 0, ir_items = [], ir_error = []\<rparr>"

definition DeleteResponse_bool :: "DeleteResponse \<Rightarrow> bool" where
  "DeleteResponse_bool r = (dr_error r = [])"

definition ItemsResponse_bool :: "ItemsResponse \<Rightarrow> bool" where
  "ItemsResponse_bool r = (ir_error r = [])"

section \<open>base.py: Base\<close>

text \<open>
  The fields of a Base; the backend it shares is passed to each method and returned.
\<close>

record Base =
  base_name :: string
  search_enabled :: bool
  vector_enabled :: bool

text \<open>\<^verbatim>\<open>bool(confs.get(k, False))\<close>: the values of \<^verbatim>\<open>oak_conf\<close> are strings.\<close>

definition conf_flag :: "(string \<rightharpoonup> string) \<Rightarrow> string \<Rightarrow> bool" where
  "conf_flag confs k = (case confs k of None \<Rightarrow> False | Some v \<Rightarrow> v \<noteq> [])"

text \<open>
  \<^verbatim>\<open>Base.__init__\<close>. \<open>vdb\<close> is the outcome of the call \<^verbatim>\<open>self.backend.vdb()\<close>;
  \<^verbatim>\<open>SQLiteBackend\<close> defines no such method, so for it the call raises AttributeError.
\<close>

definition SQLiteBackend_vdb :: "error + unit" where
  "SQLiteBackend_vdb =
     Inl (AttributeError (sq @ ''SQLiteBackend'' @ sq @ '' object has no attribute '' @
                          sq @ ''vdb'' @ sq))"

definition Base_init :: "backend \<Rightarrow> string \<Rightarrow> error + unit \<Rightarrow> error + (Base \<times> backend)" where
  "Base_init b nm vdb =
     (let b1 = initialize b nm in
      case get_configs b1 nm of
        Inl e \<Rightarrow> Inl e
      | Inr confs \<Rightarrow>
          Inr (\<lparr>base_name = nm,
                search_enabled = conf_flag confs (nm @ ''_search''),
                vector_enabled =
                  (case vdb of
                     Inl e \<Rightarrow> False
                   | Inr u \<Rightarrow> conf_flag confs (nm @ ''_vector''))\<rparr>,
               b1))"

text \<open>
  \<^verbatim>\<open>Base.disable_search\<close>: what it returns or raises, the Base and the backend afterwards.
\<close>

definition disable_search ::
  "runtime \<Rightarrow> Base \<Rightarrow> backend \<Rightarrow> (error + bool) \<times> Base \<times> backend" where
  "disable_search rt self b =
     (let b1 = drop_tables rt b (base_name self) ''search'' in
      case set_config b1 (base_name self @ ''_search'') ''0'' of
        Inl e \<Rightarrow> (Inl (ValueError (''Failed to drop table: '' @ err_str e)), self, b1)
      | Inr b2 \<Rightarrow> (Inr True, self\<lparr>search_enabled := False\<rparr>, b2))"

text \<open>\<^verbatim>\<open>Base.drop\<close>; \<^verbatim>\<open>drop_tables\<close> raises nothing on the stores represented here.\<close>

definition Base_drop ::
  "runtime \<Rightarrow> Base \<Rightarrow> backend \<Rightarrow> string \<Rightarrow> bool \<Rightarrow> (error + bool) \<times> Base \<times> backend" where
  "Base_drop rt self b nm main_only =
     (if nm \<noteq> base_name self
      then (Inl (AssertionError ''Confirm by providing the name of the table''), self, b)
      else (Inr True, self\<lparr>search_enabled := False\<rparr>,
            drop_tables rt b (base_name self) (if main_only then ''main'' else ''all'')))"

text \<open>\<^verbatim>\<open>d.pop(k, None)\<close>: the value popped and the dict afterwards.\<close>

definition dict_pop :: "string \<Rightarrow> (string \<times> pyval) list \<Rightarrow> pyval \<times> (string \<times> pyval) list" where
  "dict_pop k kvs =
     (case map_of kvs k of
        None \<Rightarrow> (PNone, kvs)
      | Some v \<Rightarrow> (v, filter (\<lambda>kv. fst kv \<noteq> k) kvs))"

text \<open>
  \<^verbatim>\<open>Base.add\<close>. The result holds the response, the backend afterwards and the caller's
  \<^verbatim>\<open>data\<close> object afterwards; an exception other than IntegrityError propagates.
\<close>

definition Base_add ::
  "runtime \<Rightarrow> Base \<Rightarrow> backend \<Rightarrow> nat \<Rightarrow> pyval \<Rightarrow> pyval \<Rightarrow> bool \<Rightarrow>
   error + (AddResponse \<times> backend \<times> pyval)" where
  "Base_add rt self b now dat key override =
     (let (k0, dat') = (case dat of
                          PDict kvs \<Rightarrow> (fst (dict_pop ''key'' kvs), PDict (snd (dict_pop ''key'' kvs)))
                        | _ \<Rightarrow> (PNone, dat)) in
      if \<not> (case key of PStr s \<Rightarrow> True | PInt i \<Rightarrow> True | PNone \<Rightarrow> True | _ \<Rightarrow> False)
      then Inr (new_AddResponse\<lparr>ar_error := ''Invalid `key` type''\<rparr>, b, dat')
      else
        (let (k, b1) = (if py_truthy key then (key, b)
                        else if py_truthy k0 then (k0, b)
                        else (PStr (fst (genkey rt b)), snd (genkey rt b)));
             ks = py_str (rt_repr rt) k in
         case SQLiteBackend_add rt b1 now (base_name self) ks (rt_dumps rt dat') override of
           Inr b2 \<Rightarrow>
             Inr (\<lparr>ar_key = ks, ar_data = dat', ar_kv = [(ks, dat')], ar_error = []\<rparr>, b2, dat')
         | Inl (IntegrityError m) \<Rightarrow>
             Inr (new_AddResponse
                    \<lparr>ar_error := ''Item with key '' @ sq @ ks @ sq @ '' already exists''\<rparr>,
                  b1, dat')
         | Inl e \<Rightarrow> Inl e))"

text \<open>
  The loop of \<^verbatim>\<open>Base.adds\<close> over the items, each a distinct object. For one item: a key
  is drawn; \<^verbatim>\<open>data\<close> is a copy of the item when it is a dict, the item itself otherwise;
  when the item is a dict, \<^verbatim>\<open>"key"\<close> is popped from \<^verbatim>\<open>item\<close> and replaces the drawn key
  unless it is falsy. The result is \<^verbatim>\<open>_items\<close>, \<^verbatim>\<open>keys\<close>, the caller's items afterwards and
  the backend afterwards.
\<close>

fun adds_loop ::
  "runtime \<Rightarrow> backend \<Rightarrow> pyval list \<Rightarrow>
   (pyval \<times> string) list \<times> pyval list \<times> pyval list \<times> backend" where
  "adds_loop rt b [] = ([], [], [], b)"
| "adds_loop rt b (item # rest) =
     (let key = PStr (fst (genkey rt b));
          b1 = snd (genkey rt b);
          dat = item;
          key' = (case item of
                    PDict kvs \<Rightarrow>
                      (if py_truthy (fst (dict_pop ''key'' kvs)) then fst (dict_pop ''key'' kvs)
                       else key)
                  | _ \<Rightarrow> key);
          item' = (case item of PDict kvs \<Rightarrow> PDict (snd (dict_pop ''key'' kvs)) | _ \<Rightarrow> item);
          r = adds_loop rt b1 rest
      in ((key', rt_dumps rt dat) # fst r, key' # fst (snd r), item' # fst (snd (snd r)),
          snd (snd (snd r))))"

text \<open>
  \<^verbatim>\<open>Base.adds\<close> on a list or a tuple (a set is not among the values): the response, the
  backend afterwards and the caller's items afterwards.
\<close>

definition Base_adds ::
  "runtime \<Rightarrow> Base \<Rightarrow> backend \<Rightarrow> nat \<Rightarrow> pyval \<Rightarrow> bool \<Rightarrow> AddsResponse \<times> backend \<times> pyval" where
  "Base_adds rt self b now items override =
     (case seq_items items of
        None \<Rightarrow>
          (\<lparr>as_keys = [], as_success = False,
            as_error = ''Expected list but got <class '' @ sq @ type_name items @ sq @ ''>''\<rparr>,
           b, items)
      | Some xs \<Rightarrow>
          (if xs = [] then
             (\<lparr>as_keys = [], as_success = False, as_error = ''No items''\<rparr>, b, items)
           else
             (let r = adds_loop rt b xs;
                  res = SQLiteBackend_adds rt (snd (snd (snd r))) now (base_name self) (fst r)
                          override
              in (\<lparr>as_keys = fst (snd r), as_success = res_success (fst res),
                   as_error = (case res_error (fst res) of None \<Rightarrow> [] | Some e \<Rightarrow> e)\<rparr>,
                  snd res,
                  (case items of
                     PList ys \<Rightarrow> PList (fst (snd (snd r)))
                   | _ \<Rightarrow> PTuple (fst (snd (snd r))))))))"

text \<open>\<^verbatim>\<open>Base.delete\<close>; an exception of the backend propagates.\<close>

definition Base_delete ::
  "Base \<Rightarrow> backend \<Rightarrow> pyval \<Rightarrow> error + (DeleteResponse \<times> backend)" where
  "Base_delete self b key =
     (case (case key of
              PStr s \<Rightarrow> Some s
            | PInt i \<Rightarrow> Some (int_str i)
            | _ \<Rightarrow> None) of
        None \<Rightarrow> Inr (new_DeleteResponse\<lparr>dr_error := ''Invalid `key` type''\<rparr>, b)
      | Some ks \<Rightarrow>
          (if key = PStr [] then Inr (new_DeleteResponse\<lparr>dr_error := ''Key is empty''\<rparr>, b)
           else
             (case SQLiteBackend_delete b (base_name self) ks of
                Inl e \<Rightarrow> Inl e
              | Inr (deleted, b') \<Rightarrow>
                  Inr (new_DeleteResponse\<lparr>dr_key := ks, dr_deleted := deleted\<rparr>, b'))))"

text \<open>\<^verbatim>\<open>int(count_result[0][0])\<close>.\<close>

definition first_cell :: "pyval list list \<Rightarrow> error + pyval" where
  "first_cell rows =
     (case rows of
        [] \<Rightarrow> Inl (IndexError ''list index out of range'')
      | r # _ \<Rightarrow> (case r of [] \<Rightarrow> Inl (IndexError ''tuple index out of range'') | v # _ \<Rightarrow> Inr v))"

fun py_int :: "runtime \<Rightarrow> pyval \<Rightarrow> error + int" where
  "py_int rt (PInt i) = Inr i"
| "py_int rt (PBool b) = Inr (if b then 1 else 0)"
| "py_int rt (PStr s) = rt_int rt s"
| "py_int rt v =
     Inl (TypeError (''int() argument must be a string, a bytes-like object or a real number, not ''
                     @ sq @ type_name v @ sq))"

text \<open>The list comprehension of \<^verbatim>\<open>Base.fetch\<close> over the rows of the result.\<close>

fun row_item :: "runtime \<Rightarrow> pyval list \<Rightarrow> error + pyval" where
  "row_item rt [key, data_json, cr, up] =
     (case rt_loads rt data_json of
        Inl e \<Rightarrow> Inl e
      | Inr d \<Rightarrow> Inr (PDict [(''key'', key), (''data'', d), (''created'', cr), (''updated'', up)]))"
| "row_item rt r = Inl (ValueError ''wrong number of values to unpack'')"

fun rows_items :: "runtime \<Rightarrow> pyval list list \<Rightarrow> error + pyval list" where
  "rows_items rt [] = Inr []"
| "rows_items rt (r # rest) =
     (case row_item rt r of
        Inl e \<Rightarrow> Inl e
      | Inr it \<Rightarrow> (case rows_items rt rest of Inl e \<Rightarrow> Inl e | Inr its \<Rightarrow> Inr (it # its)))"

text \<open>
  The second half of \<^verbatim>\<open>Base.fetch\<close>, from the answer to the second query to the response.
\<close>

definition fetch_response ::
  "runtime \<Rightarrow> int \<Rightarrow> int \<Rightarrow> int \<Rightarrow> int \<Rightarrow> error + pyval list list \<Rightarrow> ItemsResponse" where
  "fetch_response rt pg total_pages total_items limit results =
     (case results of
        Inl e \<Rightarrow> new_ItemsResponse\<lparr>ir_error := err_str e\<rparr>
      | Inr rows \<Rightarrow>
          (case rows_items rt rows of
             Inl e \<Rightarrow> new_ItemsResponse\<lparr>ir_error := err_str e\<rparr>
           | Inr its \<Rightarrow>
               \<lparr>ir_page = pg, ir_pages = total_pages, ir_total = total_items,
                ir_limit = limit, ir_items = its, ir_error = []\<rparr>))"

definition Base_fetch ::
  "runtime \<Rightarrow> Base \<Rightarrow> backend \<Rightarrow> pyval \<Rightarrow> int \<Rightarrow> string \<Rightarrow> int \<Rightarrow> ItemsResponse" where
  "Base_fetch rt self b filters limit0 order page0 =
     (let limit = max 1 limit0;
          pg = max 1 page0;
          offset = (pg - 1) * limit in
      if \<not> (case filters of PList l \<Rightarrow> True | PDict d \<Rightarrow> True | PNone \<Rightarrow> True | _ \<Rightarrow> False)
      then new_ItemsResponse
             \<lparr>ir_error := ''Not supported query type: <class '' @ sq @ type_name filters @ sq @
                           ''>''\<rparr>
      else
        (case SQLiteBackend_fetch_query rt b (base_name self) filters True limit offset [] of
           Inl e \<Rightarrow> new_ItemsResponse\<lparr>ir_error := err_str e\<rparr>
         | Inr count_result \<Rightarrow>
             (case first_cell count_result of
                Inl e \<Rightarrow> new_ItemsResponse\<lparr>ir_error := err_str e\<rparr>
              | Inr v \<Rightarrow>
                  (case py_int rt v of
                     Inl e \<Rightarrow> new_ItemsResponse\<lparr>ir_error := err_str e\<rparr>
                   | Inr total_items \<Rightarrow>
                       (let total_pages = (total_items + limit - 1) div limit in
                        if pg > total_pages then
                          new_ItemsResponse
                            \<lparr>ir_items := [], ir_pages := total_pages, ir_page := pg,
                             ir_total := total_items\<rparr>
                        else
                          fetch_response rt pg total_pages total_items limit
                            (SQLiteBackend_fetch_query rt b (base_name self) filters False
                               limit offset order))))))"

section \<open>Notions used in the statements\<close>

text \<open>The keys of both operator tables, in the order of the tables.\<close>

definition OPERATOR_NAMES :: "string list" where
  "OPERATOR_NAMES =
     [''eq'', ''ne'', ''lt'', ''gt'', ''lte'', ''gte'', ''starts'', ''ends'', ''range'',
      ''contains'', ''!contains'', ''in'', ''!in'']"

definition is_pair :: "pyval \<Rightarrow> bool" where
  "is_pair v = (case seq_items v of Some xs \<Rightarrow> length xs = 2 | None \<Rightarrow> False)"

definition is_list :: "pyval \<Rightarrow> bool" where
  "is_list v = (case v of PList xs \<Rightarrow> True | _ \<Rightarrow> False)"

text \<open>
  The malformed inputs as the specification lists them: an operator outside the closed set,
  \<^verbatim>\<open>range\<close> with a value that is not a 2-element sequence, \<^verbatim>\<open>in\<close> or \<^verbatim>\<open>!in\<close> with a value
  that is not a sequence. This definition follows the specification's words, not the code.
\<close>

definition claimed_malformed :: "string \<Rightarrow> pyval \<Rightarrow> bool" where
  "claimed_malformed op v =
     (op \<notin> set OPERATOR_NAMES \<or> (op = ''range'' \<and> \<not> is_pair v) \<or>
      ((op = ''in'' \<or> op = ''!in'') \<and> seq_items v = None))"

text \<open>The number of \<^verbatim>\<open>?\<close> placeholders of an SQL text.\<close>

definition placeholders :: "string \<Rightarrow> nat" where
  "placeholders sql = count_list sql (CHR ''?'')"

text \<open>
  An item of the caller after \<^verbatim>\<open>item.pop("key", None)\<close>: a dict without its \<^verbatim>\<open>"key"\<close>
  entry, any other value as it was.
\<close>

definition strip_key :: "pyval \<Rightarrow> pyval" where
  "strip_key item = (case item of PDict kvs \<Rightarrow> PDict (snd (dict_pop ''key'' kvs)) | _ \<Rightarrow> item)"

section \<open>Concrete inputs\<close>

text \<open>
  A runtime, a backend and a Base on which the model is evaluated: \<^verbatim>\<open>json.dumps\<close> is
  replaced by the keys of a dict joined by commas, the n-th key drawn is \<^verbatim>\<open>k\<close> followed by
  n, and every SELECT answers one row holding 10. The backend holds the empty table
  \<^verbatim>\<open>notes\<close> and an empty \<^verbatim>\<open>oak_conf\<close>.
\<close>

definition sample_runtime :: runtime where
  "sample_runtime =
     \<lparr>rt_repr = (\<lambda>v. []),
      rt_int = (\<lambda>s. Inl (ValueError ''invalid literal for int()'')),
      rt_dumps = (\<lambda>v. case v of PDict kvs \<Rightarrow> join '','' (map fst kvs) | _ \<Rightarrow> []),
      rt_loads = (\<lambda>v. Inr v),
      rt_random_key = (\<lambda>n. ''k'' @ nat_str n),
      rt_embed = (\<lambda>s. []),
      VECTOR_DEPS = False,
      rt_select = (\<lambda>st q ps. Inr [[PInt 10]])\<rparr>"

definition sample_backend :: backend where
  "sample_backend =
     \<lparr>db = \<lparr>tables = [''notes'' \<mapsto> Map.empty], oak_conf = Some Map.empty,
             virtual_tables = {}, triggers = {}\<rparr>,
      vec_enabled = False, drawn = 0\<rparr>"

definition sample_base :: Base where
  "sample_base = \<lparr>base_name = ''notes'', search_enabled = False, vector_enabled = False\<rparr>"

text \<open>The sample backend with one row, stored under \<^verbatim>\<open>k\<close> at time 100.\<close>

definition sample_stored :: backend where
  "sample_stored =
     \<lparr>db = \<lparr>tables = [''notes'' \<mapsto>
                       [''k'' \<mapsto> \<lparr>data = ''old'', embedding = None, created = 100,
                                  updated = 100\<rparr>]],
             oak_conf = Some Map.empty, virtual_tables = {}, triggers = {}\<rparr>,
      vec_enabled = False, drawn = 0\<rparr>"

text \<open>
  A runtime over three stored rows: a count query (no bound parameters) answers their
  number, a row query answers the rows from the bound offset on, as many as the bound limit;
  \<^verbatim>\<open>json.loads\<close> of a str is the empty dict.
\<close>

definition sample_rows :: "pyval list list" where
  "sample_rows =
     [[PStr ''a'', PStr ''{}'', PInt 100, PInt 100],
      [PStr ''b'', PStr ''{}'', PInt 101, PInt 101],
      [PStr ''c'', PStr ''{}'', PInt 102, PInt 103]]"

definition paging_runtime :: runtime where
  "paging_runtime =
     sample_runtime
       \<lparr>rt_loads := (\<lambda>v. case v of
                          PStr s \<Rightarrow> Inr (PDict [])
                        | _ \<Rightarrow> Inl (TypeError ''the JSON object must be str'')),
        rt_select := (\<lambda>st q ps. case ps of
                          [PInt l, PInt off] \<Rightarrow> Inr (take (nat l) (drop (nat off) sample_rows))
                        | _ \<Rightarrow> Inr [[PInt (int (length sample_rows))]])\<rparr>"

section \<open>Properties of the Condition model\<close>

lemma operators_keys: "map fst (operators c) = OPERATOR_NAMES"
  by (simp add: operators_def JSON_OPERATORS_def COLUMN_OPERATORS_def OPERATOR_NAMES_def)

lemma operators_None: "(map_of (operators c) op = None) = (op \<notin> set OPERATOR_NAMES)"
  by (simp add: map_of_eq_None_iff operators_keys[of c, symmetric])

lemma operators_ins: "(map_of (operators c) op = Some None) = (op = ''in'' \<or> op = ''!in'')"
  by (simp add: operators_def JSON_OPERATORS_def COLUMN_OPERATORS_def)

lemma null_lookup:
  "map_of (null_operator c) op =
     (if op = ''eq'' then Some ([], '' IS NULL'')
      else if op = ''ne'' then Some ([], '' IS NOT NULL'') else None)"
  by (simp add: null_operator_def NULL_SQL_def)

lemma like_lookup:
  "map_of LIKE_FORMATTERS op =
     (if op = ''starts'' then Some ([], ''%'')
      else if op = ''ends'' then Some (''%'', [])
      else if op = ''contains'' then Some (''%'', ''%'')
      else if op = ''!contains'' then Some (''%'', ''%'') else None)"
  by (simp add: LIKE_FORMATTERS_def)

lemma handle_range_isl: "isl (handle_range c) = (\<not> is_pair (cvalue c))"
  by (cases "cvalue c") (auto simp: handle_range_def is_pair_def)

lemma new_Condition_isl:
  "isl (new_Condition repr op fld v col) =
     (op \<notin> set OPERATOR_NAMES \<or> (op = ''range'' \<and> \<not> is_pair v))"
proof (cases "op \<in> set OPERATOR_NAMES")
  case False
  then show ?thesis
    by (simp add: new_Condition_def post_init_def iffD2[OF operators_None])
next
  case True
  then obtain t where t:
    "map_of (operators \<lparr>operator = op, field = fld, cvalue = v, field_expression = None,
       param = [], column_name = col\<rparr>) op = Some t"
    using operators_None by (metis not_Some_eq)
  show ?thesis
    using True t
    by (auto simp: new_Condition_def post_init_def process_param_value_def
        is_valid_null_query_def null_lookup handle_range_isl is_pair_def like_lookup
        split: option.splits)
qed

text \<open>
  C6. A Condition whose value is None compiles, with operator \<^verbatim>\<open>eq\<close>, to the left-hand side
  followed by \<^verbatim>\<open>IS NULL\<close>, and with \<^verbatim>\<open>ne\<close> to the left-hand side followed by
  \<^verbatim>\<open>IS NOT NULL\<close>, with an empty parameter list in both cases; with every other operator
  constructing or compiling it raises.
\<close>

theorem null_value_sql:
  "(op = ''eq'' \<longrightarrow>
      compile_condition repr op fld PNone col = Inr (lhs_sql fld col @ '' IS NULL'', [])) \<and>
   (op = ''ne'' \<longrightarrow>
      compile_condition repr op fld PNone col = Inr (lhs_sql fld col @ '' IS NOT NULL'', [])) \<and>
   (op \<noteq> ''eq'' \<and> op \<noteq> ''ne'' \<longrightarrow> isl (compile_condition repr op fld PNone col))"
  apply (simp add: compile_condition_def new_Condition_def post_init_def process_param_value_def
      is_valid_null_query_def null_lookup get_cond_sql_def null_sql_def fe_def handle_range_def
      split: option.splits)
  apply (auto simp: operators_def JSON_OPERATORS_def COLUMN_OPERATORS_def is_json_def
      is_column_query_def split: if_splits option.splits)
  done

theorem null_value_sql_witness:
  "compile_condition (\<lambda>v. []) ''eq'' ''name'' PNone ''data'' =
     Inr (lhs_sql ''name'' ''data'' @ '' IS NULL'', []) \<and>
   compile_condition (\<lambda>v. []) ''ne'' ''_key'' PNone ''data'' =
     Inr (lhs_sql ''_key'' ''data'' @ '' IS NOT NULL'', []) \<and>
   isl (compile_condition (\<lambda>v. []) ''lt'' ''age'' PNone ''data'') \<and>
   isl (compile_condition (\<lambda>v. []) ''in'' ''age'' PNone ''data'')"
  using null_value_sql [of "''eq''" "\<lambda>v. []" "''name''" "''data''"]
    null_value_sql [of "''ne''" "\<lambda>v. []" "''_key''" "''data''"]
    null_value_sql [of "''lt''" "\<lambda>v. []" "''age''" "''data''"]
    null_value_sql [of "''in''" "\<lambda>v. []" "''age''" "''data''"]
  by simp

lemma process_param_value_fields:
  assumes "process_param_value repr c = Inr c'"
  shows "operator c' = operator c \<and> field c' = field c \<and> cvalue c' = cvalue c \<and>
         column_name c' = column_name c \<and> field_expression c' = field_expression c"
proof (cases "is_valid_null_query c")
  case True
  then show ?thesis using assms by (auto simp: process_param_value_def)
next
  case nv: False
  show ?thesis
  proof (cases "operator c = ''range''")
    case True
    then have "handle_range c = Inr c'" using assms nv by (simp add: process_param_value_def)
    then show ?thesis
      by (cases "cvalue c") (auto simp: handle_range_def split: if_splits)
  next
    case False
    then show ?thesis using assms nv
      by (cases "map_of LIKE_FORMATTERS (operator c)") (auto simp: process_param_value_def)
  qed
qed

lemma new_Condition_fields:
  assumes "new_Condition repr op fld v col = Inr c"
  shows "operator c = op" "field c = fld" "cvalue c = v" "column_name c = col"
    "field_expression c = Some (lhs_sql fld col)"
proof -
  let ?c0 = "\<lparr>operator = op, field = fld, cvalue = v, field_expression = None, param = [],
        column_name = col\<rparr>"
  have "process_param_value repr (?c0\<lparr>field_expression := Some (lhs_sql fld col)\<rparr>) = Inr c"
    using assms by (cases "map_of (operators ?c0) op") (simp_all add: new_Condition_def post_init_def)
  from process_param_value_fields[OF this]
  show "operator c = op" "field c = fld" "cvalue c = v" "column_name c = col"
    "field_expression c = Some (lhs_sql fld col)" by simp_all
qed


lemma get_cond_sql_isl:
  assumes "op \<in> set OPERATOR_NAMES" "operator c = op" "cvalue c = v"
  shows "isl (get_cond_sql c) =
     ((v = PNone \<and> op \<noteq> ''eq'' \<and> op \<noteq> ''ne'') \<or>
      ((op = ''in'' \<or> op = ''!in'') \<and> \<not> is_list v))"
proof (cases "v = PNone")
  case True
  then show ?thesis using assms(2,3)
    by (auto simp: get_cond_sql_def null_sql_def is_valid_null_query_def null_lookup is_list_def)
next
  case False
  obtain t where t: "map_of (operators c) op = Some t"
    using assms(1) operators_None by (metis not_Some_eq)
  show ?thesis
  proof (cases t)
    case None
    then have io: "op = ''in'' \<or> op = ''!in''" using t operators_ins by metis
    have "isl (ins_sql c) = (\<not> is_list v)"
      using assms(3) by (cases v) (simp_all add: ins_sql_def is_list_def)
    then show ?thesis using False t None assms(2,3) io
      by (simp add: get_cond_sql_def)
  next
    case (Some a)
    then have "\<not> (op = ''in'' \<or> op = ''!in'')"
      using t operators_ins[of c op] by simp
    then show ?thesis using False t Some assms(2,3)
      by (simp add: get_cond_sql_def)
  qed
qed


lemma both_raise:
  "a \<Longrightarrow> b \<Longrightarrow> a = (A \<or> B) \<Longrightarrow> a = (A \<or> B) \<and> b = (A \<or> B \<or> X \<or> Y)"
  by blast

lemma second_raises:
  "\<not> a \<Longrightarrow> a = (A \<or> B) \<Longrightarrow> b = (X \<or> Y) \<Longrightarrow> a = (A \<or> B) \<and> b = (A \<or> B \<or> X \<or> Y)"
  by blast

text \<open>
  C7, as amended. Constructing a Condition raises exactly when the operator is outside the
  closed set or the operator is \<^verbatim>\<open>range\<close> and the value is not a list or tuple of two
  elements. Constructing and compiling it raises exactly in those cases, and when the value
  is None with an operator other than \<^verbatim>\<open>eq\<close> and \<^verbatim>\<open>ne\<close>, and when the operator is \<^verbatim>\<open>in\<close>
  or \<^verbatim>\<open>!in\<close> and the value is not a list (a tuple is refused as well). Every other input
  compiles without an error.
\<close>

theorem compile_raises_iff:
  "isl (new_Condition repr op fld v col) =
     (op \<notin> set OPERATOR_NAMES \<or> (op = ''range'' \<and> \<not> is_pair v)) \<and>
   isl (compile_condition repr op fld v col) =
     (op \<notin> set OPERATOR_NAMES \<or> (op = ''range'' \<and> \<not> is_pair v) \<or>
      (v = PNone \<and> op \<noteq> ''eq'' \<and> op \<noteq> ''ne'') \<or>
      ((op = ''in'' \<or> op = ''!in'') \<and> \<not> is_list v))"
proof (cases "new_Condition repr op fld v col")
  case (Inl e)
  then have i: "isl (new_Condition repr op fld v col)" by simp
  have c: "isl (compile_condition repr op fld v col)"
    using Inl by (simp add: compile_condition_def)
  show ?thesis
    by (rule both_raise[OF i c new_Condition_isl])
next
  case (Inr c)
  then have n: "\<not> isl (new_Condition repr op fld v col)" by simp
  have ok: "op \<in> set OPERATOR_NAMES"
    using n unfolding new_Condition_isl by (rule contrapos_np) (rule disjI1)
  have "isl (compile_condition repr op fld v col) = isl (get_cond_sql c)"
    using Inr by (cases "get_cond_sql c") (simp_all add: compile_condition_def)
  also have "\<dots> = ((v = PNone \<and> op \<noteq> ''eq'' \<and> op \<noteq> ''ne'') \<or>
      ((op = ''in'' \<or> op = ''!in'') \<and> \<not> is_list v))"
    by (rule get_cond_sql_isl[OF ok new_Condition_fields(1)[OF Inr] new_Condition_fields(3)[OF Inr]])
  finally show ?thesis
    by (rule second_raises[OF n new_Condition_isl])
qed


theorem compile_raises_iff_witness:
  "isl (new_Condition (\<lambda>v. []) ''like'' ''name'' (PStr ''a'') ''data'') \<and>
   isl (new_Condition (\<lambda>v. []) ''range'' ''age'' (PList [PInt 1]) ''data'') \<and>
   isl (compile_condition (\<lambda>v. []) ''in'' ''tags'' (PTuple [PInt 1, PInt 2]) ''data'') \<and>
   \<not> isl (new_Condition (\<lambda>v. []) ''in'' ''tags'' (PTuple [PInt 1, PInt 2]) ''data'') \<and>
   \<not> isl (compile_condition (\<lambda>v. []) ''range'' ''age'' (PTuple [PInt 1, PInt 2]) ''data'')"
proof -
  have a: "''like'' \<notin> set OPERATOR_NAMES" by (simp add: OPERATOR_NAMES_def)
  have b: "''range'' \<in> set OPERATOR_NAMES" "''in'' \<in> set OPERATOR_NAMES"
    by (simp_all add: OPERATOR_NAMES_def)
  have c: "\<not> is_pair (PList [PInt 1])" "is_pair (PTuple [PInt 1, PInt 2])"
    "\<not> is_list (PTuple [PInt 1, PInt 2])"
    by (simp_all add: is_pair_def is_list_def)
  show ?thesis
    using compile_raises_iff [of "\<lambda>v. []" "''like''" "''name''" "PStr ''a''" "''data''"]
      compile_raises_iff [of "\<lambda>v. []" "''range''" "''age''" "PList [PInt 1]" "''data''"]
      compile_raises_iff [of "\<lambda>v. []" "''in''" "''tags''" "PTuple [PInt 1, PInt 2]" "''data''"]
      compile_raises_iff [of "\<lambda>v. []" "''range''" "''age''" "PTuple [PInt 1, PInt 2]" "''data''"]
    by (simp add: a b c)
qed

text \<open>
  The counterexample to C7 as stated: \<^verbatim>\<open>in\<close> with a tuple, which is a sequence, is not one
  of the malformed inputs the claim lists, and compiling it raises.
\<close>

theorem in_with_tuple_raises:
  "isl (compile_condition (\<lambda>v. []) ''in'' ''tags'' (PTuple [PInt 1, PInt 2]) ''data'') \<and>
   \<not> claimed_malformed ''in'' (PTuple [PInt 1, PInt 2])"
proof -
  have "\<not> column_field ''tags''" by (simp add: column_field_def COLUMN_KEYS_def)
  then have "isl (compile_condition (\<lambda>v. []) ''in'' ''tags'' (PTuple [PInt 1, PInt 2]) ''data'')"
    by (simp add: compile_condition_def new_Condition_def post_init_def process_param_value_def
      is_valid_null_query_def null_lookup like_lookup get_cond_sql_def ins_sql_def
      operators_def is_json_def is_column_query_def JSON_OPERATORS_def)
  moreover have "\<not> claimed_malformed ''in'' (PTuple [PInt 1, PInt 2])"
    by (simp add: claimed_malformed_def OPERATOR_NAMES_def)
  ultimately show ?thesis by (rule conjI)
qed

section \<open>Properties of the where-clause compiler\<close>

lemma loop_eq:
  "(build_condition_loop repr col kvs clauses params = Inr (cl, ps)) =
   (\<exists>cs. list_all2 (\<lambda>kv c. condition_clause repr col kv = Inr c) kvs cs \<and>
         cl = clauses @ map fst cs \<and> ps = params @ concat (map snd cs))"
proof (induction kvs arbitrary: clauses params)
  case Nil
  then show ?case by auto
next
  case (Cons kv rest)
  show ?case
  proof (cases "condition_clause repr col kv")
    case (Inl e)
    then show ?thesis by (auto simp: list_all2_Cons1)
  next
    case (Inr c)
    obtain sql p where c: "c = (sql, p)" by (cases c)
    show ?thesis
      using Inr c Cons.IH[of "clauses @ [sql]" "params @ p"]
      by (auto simp: list_all2_Cons1)
  qed
qed


lemma where_loop_eq:
  "(build_where_loop repr col gs clauses params = Inr (cl, ps)) =
   (\<exists>cs. list_all2 (\<lambda>g c. build_condition repr g col = Inr c) gs cs \<and>
         cl = clauses @ map fst cs \<and> ps = params @ concat (map snd cs))"
proof (induction gs arbitrary: clauses params)
  case Nil
  then show ?case by auto
next
  case (Cons g rest)
  show ?case
  proof (cases "build_condition repr g col")
    case (Inl e)
    then show ?thesis by (auto simp: list_all2_Cons1)
  next
    case (Inr c)
    obtain sql p where c: "c = (sql, p)" by (cases c)
    show ?thesis
      using Inr c Cons.IH[of "clauses @ [sql]" "params @ p"]
      by (auto simp: list_all2_Cons1)
  qed
qed

lemma loop_of_clauses:
  "list_all2 (\<lambda>kv c. condition_clause repr col kv = Inr c) kvs cs \<Longrightarrow>
   build_condition_loop repr col kvs [] [] = Inr (map fst cs, concat (map snd cs))"
  using loop_eq[of repr col kvs "[]" "[]" "map fst cs" "concat (map snd cs)"] by auto

lemma build_condition_eq:
  "(build_condition repr (PDict kvs) col = Inr (sql, ps)) =
   (\<exists>cs. list_all2 (\<lambda>kv c. condition_clause repr col kv = Inr c) kvs cs \<and>
         sql = join '' AND '' (map fst cs) \<and> ps = concat (map snd cs))"
  (is "?L = ?R")
proof
  assume ?L
  then obtain cl where l: "build_condition_loop repr col kvs [] [] = Inr (cl, ps)"
    and sql: "sql = join '' AND '' cl"
    by (auto simp: build_condition_def split: sum.splits)
  from l obtain cs where "list_all2 (\<lambda>kv c. condition_clause repr col kv = Inr c) kvs cs"
    "cl = map fst cs" "ps = concat (map snd cs)"
    unfolding loop_eq by auto
  with sql show ?R by auto
next
  assume ?R
  then obtain cs where cs: "list_all2 (\<lambda>kv c. condition_clause repr col kv = Inr c) kvs cs"
    and r: "sql = join '' AND '' (map fst cs)" "ps = concat (map snd cs)"
    by auto
  show ?L
    using loop_of_clauses[OF cs] r by (simp add: build_condition_def)
qed

lemma where_loop_of_groups:
  "list_all2 (\<lambda>g c. build_condition repr g col = Inr c) gs cs \<Longrightarrow>
   build_where_loop repr col gs [] [] = Inr (map fst cs, concat (map snd cs))"
  using where_loop_eq[of repr col gs "[]" "[]" "map fst cs" "concat (map snd cs)"] by auto

lemma build_where_list_eq:
  "(build_where_clause repr (PList gs) col = Inr (sql, ps)) =
   (\<exists>cs. list_all2 (\<lambda>g c. build_condition repr g col = Inr c) gs cs \<and>
         sql = ''('' @ join '' OR '' (map fst cs) @ '')'' \<and> ps = concat (map snd cs))"
  (is "?L = ?R")
proof
  assume ?L
  then obtain cl where l: "build_where_loop repr col gs [] [] = Inr (cl, ps)"
    and sql: "sql = ''('' @ join '' OR '' cl @ '')''"
    by (auto simp: build_where_clause_def split: sum.splits)
  from l obtain cs where "list_all2 (\<lambda>g c. build_condition repr g col = Inr c) gs cs"
    "cl = map fst cs" "ps = concat (map snd cs)"
    unfolding where_loop_eq by auto
  with sql show ?R by auto
next
  assume ?R
  then obtain cs where cs: "list_all2 (\<lambda>g c. build_condition repr g col = Inr c) gs cs"
    and r: "sql = ''('' @ join '' OR '' (map fst cs) @ '')''" "ps = concat (map snd cs)"
    by auto
  show ?L
    using where_loop_of_groups[OF cs] r by (simp add: build_where_clause_def)
qed

text \<open>
  C8, as amended. A single group (a dict) compiles to the clauses of its entries joined by
  \<^verbatim>\<open>AND\<close>, with their parameters concatenated in the iteration order of the keys. A list
  of groups compiles to the AND-compiled groups joined by \<^verbatim>\<open>OR\<close>, with one pair of
  parentheses around the whole disjunction and none around each group, and the groups'
  parameters concatenated in order.
\<close>

theorem where_clause_shape:
  "(build_where_clause repr (PDict kvs) col = Inr (sql, ps)) =
     (\<exists>cs. list_all2 (\<lambda>kv c. condition_clause repr col kv = Inr c) kvs cs \<and>
           sql = join '' AND '' (map fst cs) \<and> ps = concat (map snd cs)) \<and>
   (build_where_clause repr (PList gs) col = Inr (sql', ps')) =
     (\<exists>cs. list_all2 (\<lambda>g c. build_condition repr g col = Inr c) gs cs \<and>
           sql' = ''('' @ join '' OR '' (map fst cs) @ '')'' \<and> ps' = concat (map snd cs))"
proof (rule conjI)
  have "build_where_clause repr (PDict kvs) col = build_condition repr (PDict kvs) col"
    by (simp add: build_where_clause_def)
  then show "(build_where_clause repr (PDict kvs) col = Inr (sql, ps)) =
     (\<exists>cs. list_all2 (\<lambda>kv c. condition_clause repr col kv = Inr c) kvs cs \<and>
           sql = join '' AND '' (map fst cs) \<and> ps = concat (map snd cs))"
    by (simp only: build_condition_eq)
next
  show "(build_where_clause repr (PList gs) col = Inr (sql', ps')) =
     (\<exists>cs. list_all2 (\<lambda>g c. build_condition repr g col = Inr c) gs cs \<and>
           sql' = ''('' @ join '' OR '' (map fst cs) @ '')'' \<and> ps' = concat (map snd cs))"
    by (rule build_where_list_eq)
qed


lemmas compile_eval =
  compile_condition_def new_Condition_def post_init_def process_param_value_def
  is_valid_null_query_def null_lookup like_lookup get_cond_sql_def ins_sql_def null_sql_def
  operators_def is_json_def is_column_query_def column_field_def COLUMN_KEYS_def
  JSON_OPERATORS_def COLUMN_OPERATORS_def fe_def lhs_sql_def sq_def handle_range_def

lemma clause_a:
  "condition_clause (\<lambda>v. []) ''data'' (''a'', PInt 1) =
     Inr (''json_extract(data, '$.a') = ?'', [PInt 1])"
  by (simp add: condition_clause_def split_dunder_def compile_eval)

lemma clause_b:
  "condition_clause (\<lambda>v. []) ''data'' (''b__gt'', PInt 2) =
     Inr (''CAST(json_extract(data, '$.b') as NUMERIC) > ?'', [PInt 2])"
  by (simp add: condition_clause_def split_dunder_def compile_eval)

lemma group_a:
  "build_condition (\<lambda>v. []) (PDict [(''a'', PInt 1)]) ''data'' =
     Inr (''json_extract(data, '$.a') = ?'', [PInt 1])"
  by (simp add: build_condition_def clause_a)

lemma group_b:
  "build_condition (\<lambda>v. []) (PDict [(''b__gt'', PInt 2)]) ''data'' =
     Inr (''CAST(json_extract(data, '$.b') as NUMERIC) > ?'', [PInt 2])"
  by (simp add: build_condition_def clause_b)

theorem where_clause_shape_witness:
  "build_where_clause (\<lambda>v. []) (PDict [(''a'', PInt 1), (''b__gt'', PInt 2)]) ''data'' =
     Inr (''json_extract(data, '$.a') = ? AND CAST(json_extract(data, '$.b') as NUMERIC) > ?'',
          [PInt 1, PInt 2]) \<and>
   build_where_clause (\<lambda>v. [])
       (PList [PDict [(''a'', PInt 1)], PDict [(''b__gt'', PInt 2)]]) ''data'' =
     Inr (''(json_extract(data, '$.a') = ? OR CAST(json_extract(data, '$.b') as NUMERIC) > ?)'',
          [PInt 1, PInt 2])"
proof -
  let ?ca = "(''json_extract(data, '$.a') = ?'', [PInt 1])"
  let ?cb = "(''CAST(json_extract(data, '$.b') as NUMERIC) > ?'', [PInt 2])"
  have 1: "list_all2 (\<lambda>kv c. condition_clause (\<lambda>v. []) ''data'' kv = Inr c)
             [(''a'', PInt 1), (''b__gt'', PInt 2)] [?ca, ?cb]"
    by (simp add: clause_a clause_b)
  have 2: "list_all2 (\<lambda>g c. build_condition (\<lambda>v. []) g ''data'' = Inr c)
             [PDict [(''a'', PInt 1)], PDict [(''b__gt'', PInt 2)]] [?ca, ?cb]"
    by (simp add: group_a group_b)
  have 3: "join '' AND '' (map fst [?ca, ?cb]) =
      ''json_extract(data, '$.a') = ? AND CAST(json_extract(data, '$.b') as NUMERIC) > ?''"
    by simp
  have 4: "''('' @ join '' OR '' (map fst [?ca, ?cb]) @ '')'' =
      ''(json_extract(data, '$.a') = ? OR CAST(json_extract(data, '$.b') as NUMERIC) > ?)''"
    by simp
  have 5: "concat (map snd [?ca, ?cb]) = [PInt 1, PInt 2]" by simp
  from where_clause_shape [of "\<lambda>v. []" "[(''a'', PInt 1), (''b__gt'', PInt 2)]" "''data''"
      "''json_extract(data, '$.a') = ? AND CAST(json_extract(data, '$.b') as NUMERIC) > ?''"
      "[PInt 1, PInt 2]" "[PDict [(''a'', PInt 1)], PDict [(''b__gt'', PInt 2)]]"
      "''(json_extract(data, '$.a') = ? OR CAST(json_extract(data, '$.b') as NUMERIC) > ?)''"
      "[PInt 1, PInt 2]"]
  show ?thesis
    using 1 2 3 4 5 by (metis (no_types, lifting))
qed

text \<open>
  The counterexample to C8 as stated: for two groups the compiler does not produce
  \<^verbatim>\<open>(g1) OR (g2)\<close>.
\<close>

theorem or_groups_not_parenthesised:
  "build_where_clause (\<lambda>v. [])
       (PList [PDict [(''a'', PInt 1)], PDict [(''b__gt'', PInt 2)]]) ''data'' =
     Inr (''(json_extract(data, '$.a') = ? OR CAST(json_extract(data, '$.b') as NUMERIC) > ?)'',
          [PInt 1, PInt 2]) \<and>
   build_where_clause (\<lambda>v. [])
       (PList [PDict [(''a'', PInt 1)], PDict [(''b__gt'', PInt 2)]]) ''data'' \<noteq>
     Inr (''(json_extract(data, '$.a') = ?) OR (CAST(json_extract(data, '$.b') as NUMERIC) > ?)'',
          [PInt 1, PInt 2])"
  by (simp add: build_where_clause_def group_a group_b)

section \<open>Placeholders and parameters\<close>

lemma placeholders_append: "placeholders (a @ b) = placeholders a + placeholders b"
  by (induction a) (simp_all add: placeholders_def)

lemma placeholders_none: "CHR ''?'' \<notin> set s \<Longrightarrow> placeholders s = 0"
  by (simp add: placeholders_def)

lemma placeholders_Cons: "placeholders (c # s) = (if c = CHR ''?'' then 1 else 0) + placeholders s"
  by (simp add: placeholders_def)

lemma placeholders_Nil: "placeholders [] = 0"
  by (simp add: placeholders_def)

lemma placeholders_join:
  "placeholders (join '','' (map (\<lambda>x. p) xs)) = length xs * placeholders p"
proof (induction xs rule: induct_list012)
  case 1
  then show ?case by (simp add: placeholders_Nil)
next
  case (2 x)
  then show ?case by simp
next
  case (3 x y zs)
  then show ?case by (simp add: placeholders_append placeholders_Cons)
qed


lemma placeholders_lhs:
  assumes "CHR ''?'' \<notin> set fld" "CHR ''?'' \<notin> set col"
  shows "placeholders (lhs_sql fld col) = 0"
proof (cases "column_field fld")
  case True
  have "CHR ''?'' \<notin> set (drop 1 fld)"
    using assms(1) set_drop_subset[of 1 fld] by blast
  then show ?thesis using True by (simp add: lhs_sql_def placeholders_none)
next
  case False
  have f: "placeholders fld = 0" "placeholders col = 0"
    using assms by (simp_all add: placeholders_none)
  show ?thesis using False f
    by (simp add: lhs_sql_def sq_def placeholders_append placeholders_Cons placeholders_Nil)
qed


lemma valid_null_iff:
  "is_valid_null_query c = ((operator c = ''eq'' \<or> operator c = ''ne'') \<and> cvalue c = PNone)"
  by (simp add: is_valid_null_query_def null_lookup)

lemma process_param_value_length:
  assumes "process_param_value repr c = Inr c'"
  shows "length (param c') =
     (if is_valid_null_query c then 0 else if operator c = ''range'' then 2 else 1)"
proof (cases "is_valid_null_query c")
  case True
  then show ?thesis using assms by (auto simp: process_param_value_def)
next
  case nv: False
  show ?thesis
  proof (cases "operator c = ''range''")
    case True
    then have "handle_range c = Inr c'" using assms nv by (simp add: process_param_value_def)
    then have "length (param c') = 2"
      by (cases "cvalue c") (auto simp: handle_range_def split: if_splits)
    then show ?thesis using nv True by simp
  next
    case False
    then have "length (param c') = 1" using assms nv
      by (cases "map_of LIKE_FORMATTERS (operator c)") (auto simp: process_param_value_def)
    then show ?thesis using nv False by simp
  qed
qed

lemma new_Condition_param_length:
  assumes "new_Condition repr op fld v col = Inr c"
  shows "length (param c) =
     (if (op = ''eq'' \<or> op = ''ne'') \<and> v = PNone then 0 else if op = ''range'' then 2 else 1)"
proof -
  let ?c0 = "\<lparr>operator = op, field = fld, cvalue = v, field_expression = None, param = [],
        column_name = col\<rparr>"
  have "process_param_value repr (?c0\<lparr>field_expression := Some (lhs_sql fld col)\<rparr>) = Inr c"
    using assms by (cases "map_of (operators ?c0) op") (simp_all add: new_Condition_def post_init_def)
  from process_param_value_length[OF this]
  show ?thesis by (simp add: valid_null_iff)
qed

lemma template_placeholders:
  "map_of (operators c) op = Some (Some t) \<Longrightarrow>
   placeholders (fst t) + placeholders (snd t) = (if op = ''range'' then 2 else 1)"
  by (auto simp: operators_def JSON_OPERATORS_def COLUMN_OPERATORS_def placeholders_Cons
      placeholders_Nil split: if_splits)


lemma compile_condition_Inr:
  assumes "compile_condition repr op fld v col = Inr (sql, ps)"
  obtains c where "new_Condition repr op fld v col = Inr c" "get_cond_sql c = Inr sql"
    "ps = param c"
  using assms by (auto simp: compile_condition_def split: sum.splits)

lemma params_match_placeholders:
  assumes comp: "compile_condition repr op fld v col = Inr (sql, ps)"
    and nin: "op \<noteq> ''in''" "op \<noteq> ''!in''"
    and q: "CHR ''?'' \<notin> set fld" "CHR ''?'' \<notin> set col"
  shows "placeholders sql = length ps"
proof -
  from comp obtain c where c: "new_Condition repr op fld v col = Inr c"
    and g: "get_cond_sql c = Inr sql" and ps: "ps = param c"
    by (rule compile_condition_Inr)
  note f = new_Condition_fields[OF c]
  have lhs0: "placeholders (lhs_sql fld col) = 0" using q by (rule placeholders_lhs)
  have fe: "fe c = lhs_sql fld col" using f(5) by (simp add: fe_def)
  show ?thesis
  proof (cases "v = PNone")
    case True
    then have n: "null_sql c = Inr sql" using g f(3) by (simp add: get_cond_sql_def)
    then have valid: "op = ''eq'' \<or> op = ''ne''"
      using f(1) by (auto simp: null_sql_def valid_null_iff split: if_splits)
    then have "placeholders sql = 0"
      using n f(1) f(3) True fe lhs0
      by (auto simp: null_sql_def valid_null_iff null_lookup placeholders_append
          placeholders_Cons placeholders_Nil)
    moreover have "length ps = 0"
      using new_Condition_param_length[OF c] valid True ps by simp
    ultimately show ?thesis by simp
  next
    case False
    then have g': "(case map_of (operators c) op of
           None \<Rightarrow> Inl (KeyError (operator c))
         | Some None \<Rightarrow> ins_sql c
         | Some (Some t) \<Rightarrow> Inr (format_one t (fe c))) = Inr sql"
      using g f(1) f(3) by (simp add: get_cond_sql_def)
    have "map_of (operators c) op \<noteq> Some None"
      using nin operators_ins[of c op] by simp
    then obtain t where t: "map_of (operators c) op = Some (Some t)"
      using g' by (cases "map_of (operators c) op") auto
    obtain pre post where pp: "t = (pre, post)" by (cases t)
    have "sql = pre @ lhs_sql fld col @ post" using g' t pp fe by simp
    then have "placeholders sql = placeholders pre + placeholders post"
      using lhs0 by (simp add: placeholders_append)
    also have "\<dots> = (if op = ''range'' then 2 else 1)"
      using template_placeholders[OF t] pp by simp
    also have "\<dots> = length ps"
      using new_Condition_param_length[OF c] False ps by simp
    finally show ?thesis .
  qed
qed


text \<open>
  C2. The parameter list of a Condition should be as long as its SQL fragment has \<^verbatim>\<open>?\<close>
  placeholders (\<open>params_match_placeholders\<close> shows it for every operator but \<^verbatim>\<open>in\<close> and
  \<^verbatim>\<open>!in\<close>). What the code does for \<^verbatim>\<open>in\<close> and \<^verbatim>\<open>!in\<close> with a list of n elements: the
  fragment has n placeholders, and the parameter list has the one element that is the
  list itself.
\<close>

theorem ins_params_mismatch:
  assumes "op = ''in'' \<or> op = ''!in''" "CHR ''?'' \<notin> set fld" "CHR ''?'' \<notin> set col"
  shows "\<exists>sql. compile_condition repr op fld (PList xs) col = Inr (sql, [PList xs]) \<and>
               placeholders sql = length xs"
proof -
  let ?c0 = "\<lparr>operator = op, field = fld, cvalue = PList xs, field_expression = None,
        param = [], column_name = col\<rparr>"
  let ?c = "?c0\<lparr>field_expression := Some (lhs_sql fld col), param := [PList xs]\<rparr>"
  have ops: "map_of (operators c) op = Some None" for c
    using assms(1) operators_ins[of c op] by simp
  have like: "map_of LIKE_FORMATTERS op = None"
    using assms(1) by (auto simp: like_lookup)
  have nr: "op \<noteq> ''range''" using assms(1) by auto
  have new: "new_Condition repr op fld (PList xs) col = Inr ?c"
    using nr by (simp add: new_Condition_def post_init_def ops process_param_value_def
        valid_null_iff like)
  let ?plc = "if is_json ?c then ''json(?)'' else ''?''"
  let ?sql = "lhs_sql fld col @ '' '' @ (if op = ''in'' then ''IN'' else ''NOT IN'') @ '' ('' @
               join '','' (map (\<lambda>_. ?plc) xs) @ '')''"
  have get: "get_cond_sql ?c = Inr ?sql"
    by (simp add: get_cond_sql_def ops ins_sql_def fe_def)
  have one: "placeholders ?plc = 1"
    by (simp add: placeholders_Cons placeholders_Nil)
  have "placeholders ?sql = length xs"
    using placeholders_lhs[OF assms(2,3)] one
    by (simp only: placeholders_append placeholders_join)
       (simp add: placeholders_Cons placeholders_Nil)
  moreover have "compile_condition repr op fld (PList xs) col = Inr (?sql, [PList xs])"
    using new get by (simp add: compile_condition_def)
  ultimately show ?thesis by blast
qed

theorem ins_params_mismatch_witness:
  "\<exists>sql. compile_condition (\<lambda>v. []) ''in'' ''tags'' (PList [PInt 1, PInt 2, PInt 3]) ''data'' =
           Inr (sql, [PList [PInt 1, PInt 2, PInt 3]]) \<and>
         placeholders sql = 3 \<and> length [PList [PInt 1, PInt 2, PInt 3]] = 1"
  using ins_params_mismatch [of "''in''" "''tags''" "''data''" "\<lambda>v. []" "[PInt 1, PInt 2, PInt 3]"]
  by (simp add: numeral_3_eq_3)

section \<open>Base.delete on a key that is not stored\<close>

lemma set_table_same: "tables (db b) base = Some t \<Longrightarrow> set_table b base t = b"
  by (simp add: set_table_def map_upd_triv)

lemma delete_absent:
  assumes "tables (db b) base = Some t" "t ks = None"
  shows "SQLiteBackend_delete b base ks = Inr (False, b)"
proof -
  have "t(ks := None) = t" using assms(2) by (simp add: fun_upd_idem)
  then show ?thesis using assms by (simp add: SQLiteBackend_delete_def set_table_same)
qed

text \<open>
  C10. For a key that is a non-empty str or an int, whose text form is not a key of the
  base's table, \<^verbatim>\<open>delete\<close> returns a response whose \<^verbatim>\<open>key\<close> is the text form of the
  argument, with \<^verbatim>\<open>deleted\<close> false and an empty \<^verbatim>\<open>error\<close> (so the response is truthy), and
  the store is as it was.
\<close>

theorem delete_missing_key:
  assumes "tables (db b) (base_name self) = Some t" and "t ks = None"
    and "(key = PStr ks \<and> ks \<noteq> []) \<or> (\<exists>i. key = PInt i \<and> ks = int_str i)"
  shows "Base_delete self b key = Inr (\<lparr>dr_key = ks, dr_deleted = False, dr_error = []\<rparr>, b) \<and>
         DeleteResponse_bool \<lparr>dr_key = ks, dr_deleted = False, dr_error = []\<rparr>"
  using assms(3) delete_absent[OF assms(1,2)]
  by (auto simp: Base_delete_def new_DeleteResponse_def DeleteResponse_bool_def)

theorem delete_missing_key_witness:
  "Base_delete \<lparr>base_name = ''notes'', search_enabled = False, vector_enabled = False\<rparr>
     \<lparr>db = \<lparr>tables = [''notes'' \<mapsto> Map.empty], oak_conf = Some Map.empty, virtual_tables = {},
             triggers = {}\<rparr>, vec_enabled = False, drawn = 0\<rparr>
     (PStr ''nonexistent_key'') =
   Inr (\<lparr>dr_key = ''nonexistent_key'', dr_deleted = False, dr_error = []\<rparr>,
        \<lparr>db = \<lparr>tables = [''notes'' \<mapsto> Map.empty], oak_conf = Some Map.empty, virtual_tables = {},
             triggers = {}\<rparr>, vec_enabled = False, drawn = 0\<rparr>) \<and>
   DeleteResponse_bool \<lparr>dr_key = ''nonexistent_key'', dr_deleted = False, dr_error = []\<rparr>"
  using delete_missing_key [of
      "\<lparr>db = \<lparr>tables = [''notes'' \<mapsto> Map.empty], oak_conf = Some Map.empty, virtual_tables = {},
             triggers = {}\<rparr>, vec_enabled = False, drawn = 0\<rparr>"
      "\<lparr>base_name = ''notes'', search_enabled = False, vector_enabled = False\<rparr>"
      Map.empty "''nonexistent_key''" "PStr ''nonexistent_key''"]
  by simp

section \<open>Base construction and drop\<close>

lemma initialize_conf:
  "oak_conf (db b) = Some c \<Longrightarrow> oak_conf (db (initialize b nm)) = Some c"
  by (simp add: initialize_def)

text \<open>
  C3. A persisted flag \<^verbatim>\<open>{base}_search\<close> that holds \<^verbatim>\<open>"0"\<close> (what \<^verbatim>\<open>disable_search\<close>
  stores, \<open>disable_search_flag\<close>) should give a Base whose \<^verbatim>\<open>search_enabled\<close> is false. What
  the constructor does: it takes \<^verbatim>\<open>bool\<close> of the stored string, and the string \<^verbatim>\<open>"0"\<close> is
  not empty, so \<^verbatim>\<open>search_enabled\<close> is true.
\<close>

theorem flag_zero_reads_enabled:
  assumes "oak_conf (db b) = Some c" and "c (nm @ ''_search'') = Some ''0''"
  shows "\<exists>self b'. Base_init b nm vdb = Inr (self, b') \<and> search_enabled self"
  using assms
  by (simp add: Base_init_def get_configs_def initialize_conf conf_flag_def Let_def)

lemma disable_search_flag:
  assumes "oak_conf (db b) = Some c"
  shows "\<exists>self' b'. disable_search rt self b = (Inr True, self', b') \<and>
           \<not> search_enabled self' \<and>
           oak_conf (db b') = Some (c(base_name self @ ''_search'' \<mapsto> ''0''))"
proof -
  have "base_name self @ ''_fts'' \<noteq> ''oak_conf''"
  proof
    assume "base_name self @ ''_fts'' = ''oak_conf''"
    then have "last (base_name self @ ''_fts'') = last ''oak_conf''" by simp
    then show False by simp
  qed
  then have "oak_conf (db (drop_tables rt b (base_name self) ''search'')) = Some c"
    using assms by (simp add: drop_tables_def drop_list_def)
  then show ?thesis
    by (simp add: disable_search_def set_config_def Let_def)
qed


lemma vdb_missing_disables_vector:
  "Base_init b nm SQLiteBackend_vdb = Inr (self, b') \<Longrightarrow> \<not> vector_enabled self"
  by (auto simp: Base_init_def SQLiteBackend_vdb_def Let_def split: sum.splits)

theorem flag_zero_reads_enabled_witness:
  "\<exists>self b'.
     Base_init
       \<lparr>db = \<lparr>tables = Map.empty, oak_conf = Some [''notes_search'' \<mapsto> ''0''],
               virtual_tables = {}, triggers = {}\<rparr>, vec_enabled = False, drawn = 0\<rparr>
       ''notes'' SQLiteBackend_vdb = Inr (self, b') \<and> search_enabled self"
  using flag_zero_reads_enabled [of
      "\<lparr>db = \<lparr>tables = Map.empty, oak_conf = Some [''notes_search'' \<mapsto> ''0''],
               virtual_tables = {}, triggers = {}\<rparr>, vec_enabled = False, drawn = 0\<rparr>"
      "[''notes_search'' \<mapsto> ''0'']" "''notes''" SQLiteBackend_vdb]
  by simp

lemma drop_list_main: "drop_list rt base ''main'' = [DropTable base, DropTable ''oak_conf'']"
  by (simp add: drop_list_def)

text \<open>
  C5. \<^verbatim>\<open>drop(name, main_only=True)\<close> should drop the primary table only and leave
  \<^verbatim>\<open>oak_conf\<close> in place. What the code does: the drop list of kind \<^verbatim>\<open>main\<close> holds the
  primary table and \<^verbatim>\<open>oak_conf\<close>, so the configuration table of the whole store is dropped
  as well; the mirror tables stay.
\<close>

theorem drop_main_only_drops_conf:
  "\<exists>self' b'. Base_drop rt self b (base_name self) True = (Inr True, self', b') \<and>
     tables (db b') (base_name self) = None \<and>
     oak_conf (db b') = None \<and>
     virtual_tables (db b') = virtual_tables (db b) - {base_name self, ''oak_conf''}"
  by (auto simp: Base_drop_def drop_tables_def drop_list_main)

theorem drop_main_only_drops_conf_witness:
  "\<exists>self' b'.
     Base_drop sample_runtime
       \<lparr>base_name = ''notes'', search_enabled = True, vector_enabled = False\<rparr>
       \<lparr>db = \<lparr>tables = [''notes'' \<mapsto> Map.empty, ''other'' \<mapsto> Map.empty],
               oak_conf = Some [''notes_search'' \<mapsto> ''1'', ''other_search'' \<mapsto> ''1''],
               virtual_tables = {''notes_fts'', ''other_fts''}, triggers = {}\<rparr>,
        vec_enabled = False, drawn = 0\<rparr>
       ''notes'' True = (Inr True, self', b') \<and>
     oak_conf (db b') = None \<and> ''notes_fts'' \<in> virtual_tables (db b')"
  using drop_main_only_drops_conf [of sample_runtime
      "\<lparr>base_name = ''notes'', search_enabled = True, vector_enabled = False\<rparr>"
      "\<lparr>db = \<lparr>tables = [''notes'' \<mapsto> Map.empty, ''other'' \<mapsto> Map.empty],
               oak_conf = Some [''notes_search'' \<mapsto> ''1'', ''other_search'' \<mapsto> ''1''],
               virtual_tables = {''notes_fts'', ''other_fts''}, triggers = {}\<rparr>,
        vec_enabled = False, drawn = 0\<rparr>"]
  by auto

lemma drop_all_drops:
  "tables (db (drop_tables rt b base ''all'')) base = None \<and>
   oak_conf (db (drop_tables rt b base ''all'')) = None \<and>
   base @ ''_fts'' \<notin> virtual_tables (db (drop_tables rt b base ''all'')) \<and>
   (VECTOR_DEPS rt \<longrightarrow> base @ ''_vec'' \<notin> virtual_tables (db (drop_tables rt b base ''all''))) \<and>
   (\<forall>tr \<in> triggers (db (drop_tables rt b base ''all'')). snd tr \<noteq> base)"
  by (auto simp: drop_tables_def drop_list_def)

section \<open>Base.adds and the caller's items\<close>

lemma adds_loop_Cons:
  "adds_loop rt b (item # rest) =
     ((case item of
         PDict kvs \<Rightarrow>
           (if py_truthy (fst (dict_pop ''key'' kvs)) then fst (dict_pop ''key'' kvs)
            else PStr (fst (genkey rt b)))
       | _ \<Rightarrow> PStr (fst (genkey rt b)), rt_dumps rt item) # fst (adds_loop rt (snd (genkey rt b)) rest),
      (case item of
         PDict kvs \<Rightarrow>
           (if py_truthy (fst (dict_pop ''key'' kvs)) then fst (dict_pop ''key'' kvs)
            else PStr (fst (genkey rt b)))
       | _ \<Rightarrow> PStr (fst (genkey rt b))) # fst (snd (adds_loop rt (snd (genkey rt b)) rest)),
      strip_key item # fst (snd (snd (adds_loop rt (snd (genkey rt b)) rest))),
      snd (snd (snd (adds_loop rt (snd (genkey rt b)) rest))))"
  by (simp only: adds_loop.simps Let_def strip_key_def)

lemma adds_loop_bodies:
  "map snd (fst (adds_loop rt b xs)) = map (rt_dumps rt) xs \<and>
   fst (snd (snd (adds_loop rt b xs))) = map strip_key xs \<and>
   map fst (fst (adds_loop rt b xs)) = fst (snd (adds_loop rt b xs))"
proof (induction xs arbitrary: b)
  case Nil
  show ?case by simp
next
  case (Cons item rest)
  show ?case
    using Cons.IH[of "snd (genkey rt b)"]
    by (simp only: adds_loop_Cons fst_conv snd_conv list.map)
qed


lemma strip_key_mutates:
  assumes "map_of kvs ''key'' = Some v"
  shows "strip_key (PDict kvs) = PDict (filter (\<lambda>kv. fst kv \<noteq> ''key'') kvs)"
    and "strip_key (PDict kvs) \<noteq> PDict kvs"
proof -
  show eq: "strip_key (PDict kvs) = PDict (filter (\<lambda>kv. fst kv \<noteq> ''key'') kvs)"
    using assms by (simp add: strip_key_def dict_pop_def)
  have "(''key'', v) \<in> set kvs" using assms by (rule map_of_SomeD)
  then have "length (filter (\<lambda>kv. fst kv \<noteq> ''key'') kvs) < length kvs"
    by (intro length_filter_less[of "(''key'', v)"]) simp_all
  then have "filter (\<lambda>kv. fst kv \<noteq> ''key'') kvs \<noteq> kvs" by auto
  then show "strip_key (PDict kvs) \<noteq> PDict kvs" using eq by simp
qed

text \<open>
  C4. \<^verbatim>\<open>adds\<close> should leave the caller's mappings as they were and store bodies without
  the \<^verbatim>\<open>"key"\<close> entry. What the code does on a non-empty list: the copy is taken into
  \<^verbatim>\<open>data\<close>, but \<^verbatim>\<open>"key"\<close> is popped from \<^verbatim>\<open>item\<close>, the caller's object, so every dict of the
  caller loses its \<^verbatim>\<open>"key"\<close> entry (\<open>strip_key_mutates\<close>), and the body handed to the backend
  is \<^verbatim>\<open>json.dumps\<close> of the item as it was given, \<^verbatim>\<open>"key"\<close> entry included. The popped key,
  or the drawn one when it is falsy, is the key of the item.
\<close>

theorem adds_pops_from_caller:
  assumes "xs \<noteq> []"
  shows "\<exists>resp b'. Base_adds rt self b now (PList xs) override =
                      (resp, b', PList (map strip_key xs)) \<and>
           as_keys resp = map fst (fst (adds_loop rt b xs)) \<and>
           map snd (fst (adds_loop rt b xs)) = map (rt_dumps rt) xs"
proof -
  note l = adds_loop_bodies[of rt b xs]
  have "Base_adds rt self b now (PList xs) override =
      (\<lparr>as_keys = fst (snd (adds_loop rt b xs)),
        as_success = res_success (fst (SQLiteBackend_adds rt (snd (snd (snd (adds_loop rt b xs))))
            now (base_name self) (fst (adds_loop rt b xs)) override)),
        as_error = (case res_error (fst (SQLiteBackend_adds rt
            (snd (snd (snd (adds_loop rt b xs)))) now (base_name self)
            (fst (adds_loop rt b xs)) override)) of None \<Rightarrow> [] | Some e \<Rightarrow> e)\<rparr>,
       snd (SQLiteBackend_adds rt (snd (snd (snd (adds_loop rt b xs)))) now (base_name self)
            (fst (adds_loop rt b xs)) override),
       PList (fst (snd (snd (adds_loop rt b xs)))))"
    using assms by (simp add: Base_adds_def Let_def)
  then show ?thesis using l by simp
qed


theorem adds_pops_from_caller_witness:
  "\<exists>resp b'.
     Base_adds sample_runtime sample_base sample_backend 7
       (PList [PDict [(''Name'', PStr ''Moe''), (''key'', PStr ''one'')]]) False =
       (resp, b', PList [PDict [(''Name'', PStr ''Moe'')]]) \<and>
     as_keys resp = [PStr ''one''] \<and>
     map snd (fst (adds_loop sample_runtime sample_backend
                     [PDict [(''Name'', PStr ''Moe''), (''key'', PStr ''one'')]])) =
       [''Name,key'']"
proof -
  have 1: "strip_key (PDict [(''Name'', PStr ''Moe''), (''key'', PStr ''one'')]) =
      PDict [(''Name'', PStr ''Moe'')]"
    by (simp add: strip_key_def dict_pop_def)
  have 2: "map fst (fst (adds_loop sample_runtime sample_backend
                     [PDict [(''Name'', PStr ''Moe''), (''key'', PStr ''one'')]])) = [PStr ''one'']"
    by (simp only: adds_loop_Cons adds_loop.simps fst_conv snd_conv list.map)
       (simp add: dict_pop_def)
  have 3: "rt_dumps sample_runtime (PDict [(''Name'', PStr ''Moe''), (''key'', PStr ''one'')]) =
      ''Name,key''"
    by (simp add: sample_runtime_def)
  have ne: "[PDict [(''Name'', PStr ''Moe''), (''key'', PStr ''one'')]] \<noteq> []" by simp
  show ?thesis
    using adds_pops_from_caller [OF ne, of sample_runtime sample_base sample_backend 7 False]
    by (simp only: 1 2 3 list.map)
qed

section \<open>Timestamps under override\<close>

lemma update_embedding_created:
  "t k = Some r \<Longrightarrow> \<exists>r'. update_embedding t key emb k = Some r' \<and> created r' = created r"
  by (cases "t key") (auto simp: update_embedding_def)

lemma adds_embedding_rows_created:
  "t k = Some r \<Longrightarrow> \<exists>r'. adds_embedding_rows rt t texts k = Some r' \<and> created r' = created r"
proof (induction texts arbitrary: t r)
  case Nil
  then show ?case by simp
next
  case (Cons kt rest)
  obtain key body where kt: "kt = (key, body)" by (cases kt)
  from update_embedding_created[of t k r key "rt_embed rt body"] Cons.prems
  obtain r1 where r1: "update_embedding t key (rt_embed rt body) k = Some r1"
    "created r1 = created r" by auto
  from Cons.IH[of "update_embedding t key (rt_embed rt body)" r1] r1 show ?case by (simp add: kt)
qed

lemma adds_rows_created:
  assumes "adds_rows base override now t its = Inr t'"
    and "(PStr k, d) \<in> set its \<or> (\<exists>r. t k = Some r \<and> created r = now)"
  shows "\<exists>r'. t' k = Some r' \<and> created r' = now"
  using assms
proof (induction its arbitrary: t)
  case Nil
  then show ?case by simp
next
  case (Cons it rest)
  obtain key dat where it: "it = (key, dat)" by (cases it)
  show ?case
  proof (cases "bind_key key")
    case (Inl e)
    then show ?thesis using Cons.prems(1) it by simp
  next
    case (Inr ko)
    show ?thesis
    proof (cases ko)
      case None
      then have key: "key \<noteq> PStr k" using Inr by auto
      have "adds_rows base override now t rest = Inr t'"
        using Cons.prems(1) it Inr None by simp
      moreover have "(PStr k, d) \<in> set rest \<or> (\<exists>r. t k = Some r \<and> created r = now)"
        using Cons.prems(2) it key by auto
      ultimately show ?thesis by (rule Cons.IH)
    next
      case (Some k')
      let ?t1 = "t(k' \<mapsto> \<lparr>data = dat, embedding = None, created = now, updated = now\<rparr>)"
      have rec: "adds_rows base override now ?t1 rest = Inr t'"
        using Cons.prems(1) it Inr Some by (simp split: if_splits)
      have "(PStr k, d) \<in> set rest \<or> (\<exists>r. ?t1 k = Some r \<and> created r = now)"
      proof (cases "k' = k")
        case True
        then show ?thesis by simp
      next
        case False
        then have "key \<noteq> PStr k" using Inr Some by auto
        then show ?thesis using Cons.prems(2) it False by auto
      qed
      with rec show ?thesis by (rule Cons.IH)
    qed
  qed
qed


lemma tables_set_table: "tables (db (set_table b base t)) base = Some t"
  by (simp add: set_table_def)

lemma add_override_preserves_created:
  assumes "tables (db b) base = Some t" and "t k = Some r"
  shows "\<exists>b' t' r'. SQLiteBackend_add rt b now base k d True = Inr b' \<and>
           tables (db b') base = Some t' \<and> t' k = Some r' \<and>
           created r' = created r \<and> updated r' = now \<and> data r' = d"
proof (cases "vec_enabled b")
  case False
  then show ?thesis using assms
    by (simp add: SQLiteBackend_add_def Let_def tables_set_table)
next
  case True
  then show ?thesis using assms
    by (simp add: SQLiteBackend_add_def Let_def tables_set_table add_embedding_def
        update_embedding_def set_table_def)
qed

text \<open>
  C1. A record replaced with \<^verbatim>\<open>override=True\<close> should keep its \<^verbatim>\<open>created\<close> timestamp. The
  single \<^verbatim>\<open>add\<close> does (\<open>add_override_preserves_created\<close>). What the batch \<^verbatim>\<open>adds\<close> does:
  after a successful batch every key of the batch, a key that was stored before included,
  has \<^verbatim>\<open>created\<close> equal to the time of the batch.
\<close>

theorem adds_override_resets_created:
  assumes "tables (db b) base = Some t" and "t k = Some r"
    and "SQLiteBackend_adds rt b now base its True = (res, b')" and "res_success res"
    and "(PStr k, d) \<in> set its"
  shows "\<exists>t' r'. tables (db b') base = Some t' \<and> t' k = Some r' \<and> created r' = now"
proof (cases "adds_rows base True now t its")
  case (Inl e)
  then show ?thesis using assms(1,3,4) by (auto simp: SQLiteBackend_adds_def)
next
  case (Inr t1)
  from adds_rows_created[OF Inr, of k d] assms(5)
  obtain r1 where r1: "t1 k = Some r1" "created r1 = now" by auto
  show ?thesis
  proof (cases "vec_enabled b")
    case False
    then have "b' = set_table b base t1"
      using assms(1,3) Inr by (auto simp: SQLiteBackend_adds_def)
    then show ?thesis using r1 by (simp add: tables_set_table)
  next
    case True
    let ?texts = "map (\<lambda>x. (py_str (rt_repr rt) (fst x), snd x)) its"
    have b': "b' = set_table b base (adds_embedding_rows rt t1 ?texts)"
      using assms(1,3) Inr True by (auto simp: SQLiteBackend_adds_def)
    from adds_embedding_rows_created[of t1 k r1 rt ?texts] r1
    obtain r2 where "adds_embedding_rows rt t1 ?texts k = Some r2" "created r2 = now" by auto
    then show ?thesis using b' by (simp add: tables_set_table)
  qed
qed


theorem adds_override_resets_created_witness:
  "\<exists>t' r'. tables (db (snd (SQLiteBackend_adds sample_runtime sample_stored 200 ''notes''
                              [(PStr ''k'', ''new'')] True))) ''notes'' = Some t' \<and>
           t' ''k'' = Some r' \<and> created r' = 200"
proof -
  let ?row = "\<lparr>data = ''old'', embedding = None, created = 100, updated = 100\<rparr>"
  let ?X = "SQLiteBackend_adds sample_runtime sample_stored 200 ''notes''
              [(PStr ''k'', ''new'')] True"
  have 1: "tables (db sample_stored) ''notes'' = Some [''k'' \<mapsto> ?row]"
    by (simp add: sample_stored_def)
  have 2: "[''k'' \<mapsto> ?row] ''k'' = Some ?row" by simp
  have 3: "?X = (fst ?X, snd ?X)" by simp
  have 4: "res_success (fst ?X)"
    by (simp add: SQLiteBackend_adds_def 1)
  have 5: "(PStr ''k'', ''new'') \<in> set [(PStr ''k'', ''new'')]" by simp
  show ?thesis by (rule adds_override_resets_created[OF 1 2 3 4 5])
qed

section \<open>Base.fetch: pagination\<close>

lemma pages_lhs:
  fixes total limit :: int
  assumes "0 < limit"
  shows "(total + limit - 1) div limit =
     (total mod limit + limit - 1) div limit + total div limit"
proof -
  have ne: "limit \<noteq> 0" using assms by simp
  have "total + limit - 1 = (total mod limit + limit - 1) + limit * (total div limit)"
    by (simp add: algebra_simps)
  then have "(total + limit - 1) div limit =
      ((total mod limit + limit - 1) + limit * (total div limit)) div limit"
    by (rule arg_cong)
  also have "\<dots> = total div limit + (total mod limit + limit - 1) div limit"
    by (rule div_mult_self2[OF ne])
  finally show ?thesis by (simp only: add.commute)
qed


lemma pages_neg_div:
  fixes total limit :: int
  assumes "0 < limit"
  shows "(total + limit - 1) div limit = - ((- total) div limit)"
proof -
  have ne: "limit \<noteq> 0" using assms by simp
  have r: "0 \<le> total mod limit" "total mod limit < limit" using assms by simp_all
  note lhs = pages_lhs[OF assms, of total]
  note neg = zdiv_zminus1_eq_if[OF ne, of total]
  show ?thesis
  proof (cases "total mod limit = 0")
    case True
    have "(limit - 1) div limit = 0"
      using assms by (intro div_pos_pos_trivial) simp_all
    then have "(total + limit - 1) div limit = total div limit"
      using lhs True by simp
    moreover have "(- total) div limit = - (total div limit)"
      using neg True by simp
    ultimately show ?thesis by simp
  next
    case False
    then have r1: "1 \<le> total mod limit" using r(1) by linarith
    have "(total mod limit + limit - 1) div limit =
        (total mod limit + limit - 1 - limit) div limit + 1"
      using assms r1 by (intro div_pos_geq) linarith+
    moreover have "(total mod limit + limit - 1 - limit) div limit = 0"
      using r r1 by (intro div_pos_pos_trivial) linarith+
    ultimately have "(total + limit - 1) div limit = total div limit + 1"
      using lhs by linarith
    moreover have "(- total) div limit = - (total div limit) - 1"
      using neg False by simp
    ultimately show ?thesis by linarith
  qed
qed

lemma pages_is_ceiling:
  fixes total limit :: int
  assumes "0 < limit"
  shows "(total + limit - 1) div limit = \<lceil>real_of_int total / real_of_int limit\<rceil>"
  by (simp only: pages_neg_div[OF assms] ceiling_divide_eq_div)


lemma build_fetch_limit_offset:
  assumes "build_fetch repr base f L off order False = Inr (q, ps)"
  shows "\<exists>wps. ps = wps @ [PInt L, PInt off]"
  using assms
  by (auto simp: build_fetch_def split: sum.splits if_splits list.splits prod.splits)

lemma rows_items_of:
  assumes "list_all2 (\<lambda>r it. \<exists>k dj c u d. r = [k, dj, c, u] \<and> rt_loads rt dj = Inr d \<and>
             it = PDict [(''key'', k), (''data'', d), (''created'', c), (''updated'', u)]) rs its"
  shows "rows_items rt rs = Inr its"
  using assms by (induction rule: list_all2_induct) auto

lemma fetch_cases:
  assumes ft: "filters = PNone \<or> (\<exists>d. filters = PDict d) \<or> (\<exists>l. filters = PList l)"
    and cnt: "SQLiteBackend_fetch_query rt b (base_name self) filters True (max 1 limit)
                ((max 1 page - 1) * max 1 limit) [] = Inr ((PInt cnt_rows # cells) # rows)"
  shows "Base_fetch rt self b filters limit order page =
     (if max 1 page > (cnt_rows + max 1 limit - 1) div max 1 limit
      then \<lparr>ir_page = max 1 page, ir_pages = (cnt_rows + max 1 limit - 1) div max 1 limit,
            ir_total = cnt_rows, ir_limit = 0, ir_items = [], ir_error = []\<rparr>
      else fetch_response rt (max 1 page) ((cnt_rows + max 1 limit - 1) div max 1 limit)
             cnt_rows (max 1 limit)
             (SQLiteBackend_fetch_query rt b (base_name self) filters False (max 1 limit)
                ((max 1 page - 1) * max 1 limit) order))"
proof -
  have ok: "(case filters of PList l \<Rightarrow> True | PDict d \<Rightarrow> True | PNone \<Rightarrow> True | _ \<Rightarrow> False)"
    using ft by auto
  have fc: "first_cell ((PInt cnt_rows # cells) # rows) = Inr (PInt cnt_rows)"
    by (simp add: first_cell_def)
  show ?thesis
  proof (cases "max 1 page > (cnt_rows + max 1 limit - 1) div max 1 limit")
    case True
    then show ?thesis
      using ok cnt fc by (simp add: Base_fetch_def Let_def new_ItemsResponse_def)
  next
    case False
    then show ?thesis
      using ok cnt fc by (simp add: Base_fetch_def Let_def)
  qed
qed


text \<open>
  C9. \<^verbatim>\<open>fetch\<close> clamps \<^verbatim>\<open>limit\<close> and \<^verbatim>\<open>page\<close> to at least 1 (\<open>L\<close> and \<open>P\<close>) and queries with
  the offset (P - 1) * L. For filters that are None, a dict or a list, when the count query
  answers a row that starts with the integer count: the number of pages is the ceiling of
  count / L. When P is beyond the pages, the response has no items, an empty error, and
  reports P, the pages and the total. When P is an existing page and the row query \<open>Q\<close>
  answers rows of four cells whose JSON text loads, the response reports P, the pages, the
  total and L, and its items are the rows as dicts, in order; when the row query or a row
  fails, the response is the default one with the error text. The row query, where the
  builder succeeds, is what the engine answers to the built statement, whose last two
  parameters are L and the offset.
\<close>

theorem fetch_pagination:
  assumes ft: "filters = PNone \<or> (\<exists>d. filters = PDict d) \<or> (\<exists>l. filters = PList l)"
    and L: "L = max 1 limit" and P: "P = max 1 page" and off: "off = (P - 1) * L"
    and cnt: "SQLiteBackend_fetch_query rt b (base_name self) filters True L off [] =
                Inr ((PInt cnt_rows # cells) # rows)"
    and pages: "pages = (cnt_rows + L - 1) div L"
    and Q: "Q = SQLiteBackend_fetch_query rt b (base_name self) filters False L off order"
  shows "1 \<le> L \<and> 1 \<le> P \<and> pages = \<lceil>real_of_int cnt_rows / real_of_int L\<rceil> \<and>
    (P > pages \<longrightarrow>
       Base_fetch rt self b filters limit order page =
         \<lparr>ir_page = P, ir_pages = pages, ir_total = cnt_rows, ir_limit = 0, ir_items = [],
          ir_error = []\<rparr>) \<and>
    (P \<le> pages \<longrightarrow>
       (\<forall>rs its.
          Q = Inr rs \<longrightarrow>
          list_all2 (\<lambda>r it. \<exists>k dj c u d. r = [k, dj, c, u] \<and> rt_loads rt dj = Inr d \<and>
             it = PDict [(''key'', k), (''data'', d), (''created'', c), (''updated'', u)])
            rs its \<longrightarrow>
          Base_fetch rt self b filters limit order page =
            \<lparr>ir_page = P, ir_pages = pages, ir_total = cnt_rows, ir_limit = L,
             ir_items = its, ir_error = []\<rparr>) \<and>
       (\<forall>e. Q = Inl e \<longrightarrow>
          Base_fetch rt self b filters limit order page =
            \<lparr>ir_page = 0, ir_pages = 0, ir_total = 0, ir_limit = 0, ir_items = [],
             ir_error = err_str e\<rparr>) \<and>
       (\<forall>rs e. Q = Inr rs \<longrightarrow> rows_items rt rs = Inl e \<longrightarrow>
          Base_fetch rt self b filters limit order page =
            \<lparr>ir_page = 0, ir_pages = 0, ir_total = 0, ir_limit = 0, ir_items = [],
             ir_error = err_str e\<rparr>)) \<and>
    (\<forall>q ps. build_fetch (rt_repr rt) (base_name self) filters L off order False = Inr (q, ps) \<longrightarrow>
       Q = rt_select rt (db b) q ps \<and> (\<exists>wps. ps = wps @ [PInt L, PInt off]))"
proof -
  have pos: "0 < L" using L by simp
  have c: "SQLiteBackend_fetch_query rt b (base_name self) filters True (max 1 limit)
             ((max 1 page - 1) * max 1 limit) [] = Inr ((PInt cnt_rows # cells) # rows)"
    using cnt L P off by simp
  have f: "Base_fetch rt self b filters limit order page =
     (if P > pages
      then \<lparr>ir_page = P, ir_pages = pages, ir_total = cnt_rows, ir_limit = 0, ir_items = [],
            ir_error = []\<rparr>
      else fetch_response rt P pages cnt_rows L Q)"
    unfolding L P off pages Q by (rule fetch_cases[OF ft c])
  have 1: "1 \<le> L" "1 \<le> P" using L P by simp_all
  have 2: "pages = \<lceil>real_of_int cnt_rows / real_of_int L\<rceil>"
    unfolding pages by (rule pages_is_ceiling[OF pos])
  have 3: "P > pages \<Longrightarrow> Base_fetch rt self b filters limit order page =
         \<lparr>ir_page = P, ir_pages = pages, ir_total = cnt_rows, ir_limit = 0, ir_items = [],
          ir_error = []\<rparr>"
    using f by simp
  have fr: "P \<le> pages \<Longrightarrow>
      Base_fetch rt self b filters limit order page = fetch_response rt P pages cnt_rows L Q"
    using f by simp
  have 4: "P \<le> pages \<Longrightarrow> Q = Inr rs \<Longrightarrow>
          list_all2 (\<lambda>r it. \<exists>k dj c u d. r = [k, dj, c, u] \<and> rt_loads rt dj = Inr d \<and>
             it = PDict [(''key'', k), (''data'', d), (''created'', c), (''updated'', u)])
            rs its \<Longrightarrow>
          Base_fetch rt self b filters limit order page =
            \<lparr>ir_page = P, ir_pages = pages, ir_total = cnt_rows, ir_limit = L,
             ir_items = its, ir_error = []\<rparr>" for rs its
    using fr rows_items_of[of rt rs its] by (simp add: fetch_response_def)
  have 5: "P \<le> pages \<Longrightarrow> Q = Inl e \<Longrightarrow>
          Base_fetch rt self b filters limit order page =
            \<lparr>ir_page = 0, ir_pages = 0, ir_total = 0, ir_limit = 0, ir_items = [],
             ir_error = err_str e\<rparr>" for e
    using fr by (simp add: fetch_response_def new_ItemsResponse_def)
  have 6: "P \<le> pages \<Longrightarrow> Q = Inr rs \<Longrightarrow> rows_items rt rs = Inl e \<Longrightarrow>
          Base_fetch rt self b filters limit order page =
            \<lparr>ir_page = 0, ir_pages = 0, ir_total = 0, ir_limit = 0, ir_items = [],
             ir_error = err_str e\<rparr>" for rs e
    using fr by (simp add: fetch_response_def new_ItemsResponse_def)
  have 7: "build_fetch (rt_repr rt) (base_name self) filters L off order False = Inr (q, ps) \<Longrightarrow>
       Q = rt_select rt (db b) q ps \<and> (\<exists>wps. ps = wps @ [PInt L, PInt off])" for q ps
    using build_fetch_limit_offset[of "rt_repr rt" "base_name self" filters L off order q ps]
    by (simp add: Q SQLiteBackend_fetch_query_def)
  show ?thesis using 1 2 3 4 5 6 7 by blast
qed


theorem fetch_pagination_witness:
  "Base_fetch paging_runtime sample_base sample_backend PNone 0 ''created__desc'' (- 4) =
     \<lparr>ir_page = 1, ir_pages = 3, ir_total = 3, ir_limit = 1,
      ir_items = [PDict [(''key'', PStr ''a''), (''data'', PDict []), (''created'', PInt 100),
                         (''updated'', PInt 100)]],
      ir_error = []\<rparr> \<and>
   Base_fetch paging_runtime sample_base sample_backend PNone 2 ''created__desc'' 2 =
     \<lparr>ir_page = 2, ir_pages = 2, ir_total = 3, ir_limit = 2,
      ir_items = [PDict [(''key'', PStr ''c''), (''data'', PDict []), (''created'', PInt 102),
                         (''updated'', PInt 103)]],
      ir_error = []\<rparr> \<and>
   Base_fetch paging_runtime sample_base sample_backend PNone 2 ''created__desc'' 3 =
     \<lparr>ir_page = 3, ir_pages = 2, ir_total = 3, ir_limit = 0, ir_items = [], ir_error = []\<rparr>"
proof -
  have ft: "PNone = PNone \<or> (\<exists>d. PNone = PDict d) \<or> (\<exists>l. PNone = PList l)" by simp
  have cnt: "SQLiteBackend_fetch_query paging_runtime sample_backend (base_name sample_base)
      PNone True x y [] = Inr ((PInt 3 # []) # [])" for x y
    by (simp add: SQLiteBackend_fetch_query_def build_fetch_def paging_runtime_def
        sample_runtime_def sample_rows_def)
  have ord: "''created__desc'' \<in> set OrderFetch" by (simp add: OrderFetch_def)
  have sp: "split_dunder ''created__desc'' = [''created'', ''desc'']"
    by (simp add: split_dunder_def)
  have q: "SQLiteBackend_fetch_query paging_runtime sample_backend (base_name sample_base)
      PNone False x y ''created__desc'' = Inr (take (nat x) (drop (nat y) sample_rows))" for x y
    by (simp add: SQLiteBackend_fetch_query_def build_fetch_def ord sp paging_runtime_def
        sample_runtime_def)
  have loads: "rt_loads paging_runtime (PStr s) = Inr (PDict [])" for s
    by (simp add: paging_runtime_def sample_runtime_def)
  note a = fetch_pagination [OF ft refl refl refl cnt refl refl, of 0 "- 4" "''created__desc''"]
  note b = fetch_pagination [OF ft refl refl refl cnt refl refl, of 2 2 "''created__desc''"]
  note c = fetch_pagination [OF ft refl refl refl cnt refl refl, of 2 3 "''created__desc''"]
  have ra: "list_all2 (\<lambda>r it. \<exists>k dj c u d. r = [k, dj, c, u] \<and>
              rt_loads paging_runtime dj = Inr d \<and>
              it = PDict [(''key'', k), (''data'', d), (''created'', c), (''updated'', u)])
            (take (nat (max 1 0)) (drop (nat ((max 1 (- 4) - 1) * max 1 0)) sample_rows))
            [PDict [(''key'', PStr ''a''), (''data'', PDict []), (''created'', PInt 100),
                    (''updated'', PInt 100)]]"
    by (simp add: sample_rows_def loads)
  have rb: "list_all2 (\<lambda>r it. \<exists>k dj c u d. r = [k, dj, c, u] \<and>
              rt_loads paging_runtime dj = Inr d \<and>
              it = PDict [(''key'', k), (''data'', d), (''created'', c), (''updated'', u)])
            (take (nat (max 1 2)) (drop (nat ((max 1 2 - 1) * max 1 2)) sample_rows))
            [PDict [(''key'', PStr ''c''), (''data'', PDict []), (''created'', PInt 102),
                    (''updated'', PInt 103)]]"
    by (simp add: sample_rows_def loads)
  have A: "Base_fetch paging_runtime sample_base sample_backend PNone 0 ''created__desc'' (- 4) =
     \<lparr>ir_page = 1, ir_pages = 3, ir_total = 3, ir_limit = 1,
      ir_items = [PDict [(''key'', PStr ''a''), (''data'', PDict []), (''created'', PInt 100),
                         (''updated'', PInt 100)]],
      ir_error = []\<rparr>"
    using a [THEN conjunct2, THEN conjunct2, THEN conjunct2, THEN conjunct2, THEN conjunct1,
        THEN mp, THEN conjunct1, THEN spec, THEN spec, THEN mp, THEN mp, OF _ q ra]
    by simp
  have B: "Base_fetch paging_runtime sample_base sample_backend PNone 2 ''created__desc'' 2 =
     \<lparr>ir_page = 2, ir_pages = 2, ir_total = 3, ir_limit = 2,
      ir_items = [PDict [(''key'', PStr ''c''), (''data'', PDict []), (''created'', PInt 102),
                         (''updated'', PInt 103)]],
      ir_error = []\<rparr>"
    using b [THEN conjunct2, THEN conjunct2, THEN conjunct2, THEN conjunct2, THEN conjunct1,
        THEN mp, THEN conjunct1, THEN spec, THEN spec, THEN mp, THEN mp, OF _ q rb]
    by simp
  have C: "Base_fetch paging_runtime sample_base sample_backend PNone 2 ''created__desc'' 3 =
     \<lparr>ir_page = 3, ir_pages = 2, ir_total = 3, ir_limit = 0, ir_items = [], ir_error = []\<rparr>"
    using c [THEN conjunct2, THEN conjunct2, THEN conjunct2, THEN conjunct1, THEN mp]
    by simp
  show ?thesis using A B C by (intro conjI)
qed

end
